theory Spec2Isabelle
  imports Complex_Main "HOL-Library.Sublist" "HOL-Library.AList"
begin

section \<open>Python strings and POSIX paths used by the command line front end\<close>

text \<open>
  The front end \<^verbatim>\<open>pummeler/cli.py\<close> builds and takes apart file names with
  \<^verbatim>\<open>os.path.join\<close>, \<^verbatim>\<open>os.path.basename\<close>, \<^verbatim>\<open>str.format\<close>,
  \<^verbatim>\<open>str.startswith\<close>, \<^verbatim>\<open>str.endswith\<close> and slices. Strings are character
  lists; every exception the front end can meet is a value of \<open>error\<close>.
\<close>

datatype error =
    IOError
  | KeyError string
  | ValueError
  | IndexError
  | ArgumentError
  | TypeError
  | NotModelled
  | SchemaVersionError
  | EmptyFeatureError
  | UnknownCategoryError
  | UndefinedAverage

text \<open>Sequencing of steps that may raise: the first error ends the computation.\<close>

definition and_then :: "error + 'a \<Rightarrow> ('a \<Rightarrow> error + 'b) \<Rightarrow> error + 'b" where
  "and_then m f = (case m of Inl e \<Rightarrow> Inl e | Inr x \<Rightarrow> f x)"

definition startswith :: "string \<Rightarrow> string \<Rightarrow> bool" where
  "startswith s p = prefix p s"

definition endswith :: "string \<Rightarrow> string \<Rightarrow> bool" where
  "endswith s p = suffix p s"

text \<open>
  \<^verbatim>\<open>s[i:j]\<close> for arbitrary integers: a negative bound counts from the end, and both
  bounds are clamped to the string.
\<close>

definition slice_bound :: "string \<Rightarrow> int \<Rightarrow> nat" where
  "slice_bound s k =
     (if k < 0 then nat (max 0 (int (length s) + k)) else min (nat k) (length s))"

definition py_slice :: "string \<Rightarrow> int \<Rightarrow> int \<Rightarrow> string" where
  "py_slice s i j = take (slice_bound s j - slice_bound s i) (drop (slice_bound s i) s)"

text \<open>\<^verbatim>\<open>s[i:]\<close>, the slice with no upper bound.\<close>

definition py_slice_from :: "string \<Rightarrow> int \<Rightarrow> string" where
  "py_slice_from s i = drop (slice_bound s i) s"

text \<open>\<^verbatim>\<open>posixpath.join(a, b)\<close> with two arguments.\<close>

definition path_join :: "string \<Rightarrow> string \<Rightarrow> string" where
  "path_join a b =
     (if startswith b ''/'' then b
      else if a = [] \<or> endswith a ''/'' then a @ b
      else a @ ''/'' @ b)"

text \<open>\<^verbatim>\<open>posixpath.basename(p)\<close>: what follows the last slash.\<close>

definition basename :: "string \<Rightarrow> string" where
  "basename p = rev (takeWhile (\<lambda>c. c \<noteq> CHR ''/'') (rev p))"

text \<open>
  \<^verbatim>\<open>pattern.format(arg)\<close> with one positional string argument. The scan goes left to
  right: \<^verbatim>\<open>{{\<close> and \<^verbatim>\<open>}}\<close> are escaped braces, the first \<^verbatim>\<open>{}\<close> is replaced by
  the argument, a second \<^verbatim>\<open>{}\<close> has no argument left (IndexError), a lone brace is a
  ValueError. Replacement fields with a name, a conversion or a format specification
  (\<^verbatim>\<open>{0}\<close>, \<^verbatim>\<open>{!r}\<close>, \<^verbatim>\<open>{:>8}\<close>) never occur in the patterns of the front end itself;
  they can only come in through a directory or base name given by the user, and
  this model reports them as \<open>NotModelled\<close> instead of interpreting them.
\<close>

fun format_from :: "bool \<Rightarrow> string \<Rightarrow> string \<Rightarrow> error + string" where
  "format_from used arg [] = Inr []"
| "format_from used arg [c] =
     (if c = CHR ''{'' \<or> c = CHR ''}'' then Inl ValueError else Inr [c])"
| "format_from used arg (c # d # rest) =
     (if c = CHR ''{'' then
        (if d = CHR ''{'' then
           and_then (format_from used arg rest) (\<lambda>s. Inr (CHR ''{'' # s))
         else if d = CHR ''}'' then
           (if used then Inl IndexError
            else and_then (format_from True arg rest) (\<lambda>s. Inr (arg @ s)))
         else Inl NotModelled)
      else if c = CHR ''}'' then
        (if d = CHR ''}'' then
           and_then (format_from used arg rest) (\<lambda>s. Inr (CHR ''}'' # s))
         else Inl ValueError)
      else and_then (format_from used arg (d # rest)) (\<lambda>s. Inr (c # s)))"

definition str_format :: "string \<Rightarrow> string \<Rightarrow> error + string" where
  "str_format pattern arg = format_from False arg pattern"

definition brace_free :: "string \<Rightarrow> bool" where
  "brace_free s = (CHR ''{'' \<notin> set s \<and> CHR ''}'' \<notin> set s)"


text \<open>\<^verbatim>\<open>s.split(c)\<close>: the pieces between the separators, empty pieces included.\<close>

fun split_on :: "char \<Rightarrow> string \<Rightarrow> string list" where
  "split_on c [] = [[]]"
| "split_on c (x # xs) =
     (if x = c then [] # split_on c xs
      else (case split_on c xs of [] \<Rightarrow> [[x]] | w # ws \<Rightarrow> (x # w) # ws))"

fun join_with :: "string \<Rightarrow> string list \<Rightarrow> string" where
  "join_with sep [] = []"
| "join_with sep [x] = x"
| "join_with sep (x # y # ys) = x @ sep @ join_with sep (y # ys)"

text \<open>
  \<^verbatim>\<open>posixpath.dirname\<close>: the part up to the last slash, without trailing slashes
  unless it consists of slashes only.
\<close>

definition dirname :: "string \<Rightarrow> string" where
  "dirname p =
     (let head = take (length p - length (basename p)) p
      in if head \<noteq> [] \<and> head \<noteq> replicate (length head) CHR ''/''
         then rev (dropWhile (\<lambda>c. c = CHR ''/'') (rev head)) else head)"

text \<open>
  \<^verbatim>\<open>posixpath.normpath\<close>: empty and \<^verbatim>\<open>.\<close> components vanish, \<^verbatim>\<open>..\<close> removes the
  component before it where there is one; exactly two leading slashes are kept.
\<close>

definition norm_comp :: "bool \<Rightarrow> string list \<Rightarrow> string \<Rightarrow> string list" where
  "norm_comp rooted new_comps c =
     (if c = [] \<or> c = ''.'' then new_comps
      else if c \<noteq> ''..'' \<or> (\<not> rooted \<and> new_comps = [])
              \<or> (new_comps \<noteq> [] \<and> last new_comps = ''..'')
        then new_comps @ [c]
      else if new_comps \<noteq> [] then butlast new_comps
      else new_comps)"

definition normpath :: "string \<Rightarrow> string" where
  "normpath path =
     (if path = [] then ''.''
      else
        let initial_slashes =
              (if startswith path ''/''
               then (if startswith path ''//'' \<and> \<not> startswith path ''///''
                     then 2 else 1)
               else (0::nat));
            comps = foldl (norm_comp (initial_slashes \<noteq> 0)) [] (split_on CHR ''/'' path);
            p = replicate initial_slashes CHR ''/'' @ join_with ''/'' comps
        in if p = [] then ''.'' else p)"

text \<open>\<^verbatim>\<open>posixpath.abspath\<close>, with the working directory passed in.\<close>

definition abspath :: "string \<Rightarrow> string \<Rightarrow> string" where
  "abspath cwd p = normpath (if startswith p ''/'' then p else path_join cwd p)"

text \<open>\<^verbatim>\<open>posixpath.relpath(path, start)\<close>.\<close>

definition relpath :: "string \<Rightarrow> string \<Rightarrow> string \<Rightarrow> error + string" where
  "relpath cwd path start =
     (if path = [] then Inl ValueError
      else
        let start_list = filter (\<lambda>x. x \<noteq> []) (split_on CHR ''/'' (abspath cwd start));
            path_list = filter (\<lambda>x. x \<noteq> []) (split_on CHR ''/'' (abspath cwd path));
            i = length (longest_common_prefix start_list path_list);
            rel_list = replicate (length start_list - i) ''..'' @ drop i path_list
        in if rel_list = [] then Inr ''.'' else Inr (join_with ''/'' rel_list))"


section \<open>Data model\<close>

text \<open>
  Modelled from the spec: the Record of the data model (the rows that
  \<^verbatim>\<open>pummeler.reader\<close>, not among the sources, produces).
  One surveyed individual: region identifier, the two attributes the eligibility
  filter reads, categorical, continuous and allocation-flag attributes by field name,
  the income adjustment factor and the sampling weight. Numbers are exact reals: the
  rounding of double precision arithmetic is not part of this model.
\<close>

record person =
  region :: string
  citizen :: bool
  age :: int
  cat :: "string \<Rightarrow> int"
  cont :: "string \<Rightarrow> real"
  alloc :: "string \<Rightarrow> bool"
  adj_factor :: real
  weight :: real

text \<open>
  Modelled from the spec: the fixed input schema of one format version (an entry of
  \<^verbatim>\<open>VERSIONS\<close> in \<^verbatim>\<open>pummeler.reader\<close>, not among the sources): the names of its
  fields.
\<close>

record schema =
  cat_fields :: "string list"
  cont_fields :: "string list"
  income_fields :: "string list"
  alloc_fields :: "string list"

text \<open>
  Modelled from the spec: the Stats object (module \<^verbatim>\<open>pummeler.stats\<close>, not among the
  sources). The finalized statistics: per categorical field the sorted sequence of observed
  values, per continuous field the weighted mean and standard deviation.
\<close>

record stats =
  stats_schema :: schema
  vocab :: "string \<Rightarrow> int list"
  mean :: "string \<Rightarrow> real"
  std :: "string \<Rightarrow> real"

text \<open>
  Modelled from the spec: the RegionStore (the HDF5 file that \<^verbatim>\<open>pummeler.sort\<close>, not
  among the sources, writes per region): the rows appended so far and the running
  total weight, the entry \<^verbatim>\<open>total_wt\<close> that \<^verbatim>\<open>cli.py\<close> reads.
\<close>

record region_store =
  store_rows :: "person list"
  total_wt :: real

text \<open>
  A numpy array is its shape and its entries in row-major order; an entry is a
  number, a string or \<^verbatim>\<open>None\<close>.
\<close>

datatype cell = Num real | Str string | PyNone

record ndarray =
  shape :: "nat list"
  cells :: "cell list"

definition wf_ndarray :: "ndarray \<Rightarrow> bool" where
  "wf_ndarray a = (length (cells a) = prod_list (shape a))"

definition str_array :: "string list \<Rightarrow> ndarray" where
  "str_array xs = \<lparr>shape = [length xs], cells = map Str xs\<rparr>"

definition num_array :: "real list \<Rightarrow> ndarray" where
  "num_array xs = \<lparr>shape = [length xs], cells = map Num xs\<rparr>"

definition num_matrix :: "nat \<Rightarrow> real list list \<Rightarrow> ndarray" where
  "num_matrix m rows = \<lparr>shape = [length rows, m], cells = map Num (concat rows)\<rparr>"

definition scalar_array :: "cell \<Rightarrow> ndarray" where
  "scalar_array c = \<lparr>shape = [], cells = [c]\<rparr>"

text \<open>A pandas frame, and the table \<^verbatim>\<open>to_csv\<close> writes from it.\<close>

record dataframe =
  df_index :: "cell list"
  df_columns :: "cell list"
  df_values :: "cell list list"

record csv_table =
  csv_index_label :: string
  csv_header :: "cell list"
  csv_rows :: "(cell \<times> cell list) list"

text \<open>
  What a file holds. The state of the world is the working directory, the files by
  normalized absolute path, and the lines printed. The store has no directories of
  its own and no I/O faults: a write always succeeds and \<^verbatim>\<open>os.makedirs\<close> changes
  nothing; reading a path that holds no file is \<open>IOError\<close>.
\<close>

datatype content =
    Npz "(string \<times> ndarray) list"
  | Csv csv_table
  | RegionFile region_store
  | StatsFile stats
  | CsvInput "person list"
  | ZipInput "person list list"

record world =
  cwd :: string
  files :: "(string \<times> content) list"
  stdout :: "string list"

definition read_file :: "world \<Rightarrow> string \<Rightarrow> error + content" where
  "read_file w p =
     (case map_of (files w) (abspath (cwd w) p) of None \<Rightarrow> Inl IOError | Some f \<Rightarrow> Inr f)"

definition write_file :: "world \<Rightarrow> string \<Rightarrow> content \<Rightarrow> world" where
  "write_file w p f = w\<lparr>files := AList.update (abspath (cwd w) p) f (files w)\<rparr>"

definition print_line :: "world \<Rightarrow> string \<Rightarrow> world" where
  "print_line w l = w\<lparr>stdout := stdout w @ [l]\<rparr>"

text \<open>\<^verbatim>\<open>os.listdir\<close>: the names of the files directly in a directory, in store order.\<close>

definition listdir :: "world \<Rightarrow> string \<Rightarrow> error + string list" where
  "listdir w d =
     (if d = [] then Inl IOError
      else Inr (map basename
                  (filter (\<lambda>k. dirname k = abspath (cwd w) d) (map fst (files w)))))"


section \<open>The sort phase: filter, statistics, partitioning\<close>

text \<open>
  Modelled from the spec: the streaming reader behind \<^verbatim>\<open>sort_by_region\<close> (module
  \<^verbatim>\<open>pummeler.reader\<close>, not among the sources). It cuts every input file into chunks
  of at most \<open>n\<close> rows, in order.
\<close>

function chunks_of :: "nat \<Rightarrow> 'a list \<Rightarrow> 'a list list" where
  "chunks_of k rows =
     (if rows = [] \<or> k = 0 then []
      else take k rows # chunks_of k (drop k rows))"
  by pat_completeness auto
termination
  by (relation "measure (\<lambda>p. length (snd p))") auto

declare chunks_of.simps [simp del]

text \<open>
  Modelled from the spec: the input of the sorter, a zip archive or a list of CSV files,
  as \<^verbatim>\<open>cli.py\<close> passes it; no source at all is the third case.
\<close>

datatype source = FromZip string | FromCsvs "string list" | NoSource

text \<open>
  Modelled from the spec: reading one CSV file of records (module
  \<^verbatim>\<open>pummeler.reader\<close>, not among the sources).
\<close>

definition read_csv :: "world \<Rightarrow> string \<Rightarrow> error + person list" where
  "read_csv w p =
     and_then (read_file w p) (\<lambda>f. case f of CsvInput rows \<Rightarrow> Inr rows | _ \<Rightarrow> Inl IOError)"

text \<open>
  Modelled from the spec: reading the CSV files in order; the first that cannot be read
  ends the run.
\<close>

fun read_csvs :: "world \<Rightarrow> string list \<Rightarrow> error + person list list" where
  "read_csvs w [] = Inr []"
| "read_csvs w (p # ps) =
     and_then (read_csv w p) (\<lambda>rows.
     and_then (read_csvs w ps) (\<lambda>rest. Inr (rows # rest)))"

text \<open>
  Modelled from the spec: reading the whole input, the files of a zip archive or the CSV
  files (module \<^verbatim>\<open>pummeler.reader\<close>, not among the sources).
\<close>

definition read_source :: "world \<Rightarrow> source \<Rightarrow> error + person list list" where
  "read_source w src =
     (case src of
        FromZip p \<Rightarrow>
          and_then (read_file w p) (\<lambda>f. case f of ZipInput fs \<Rightarrow> Inr fs | _ \<Rightarrow> Inl IOError)
      | FromCsvs ps \<Rightarrow> read_csvs w ps
      | NoSource \<Rightarrow> Inl TypeError)"

text \<open>
  Modelled from the spec: the record filter and transform of \<^verbatim>\<open>sort_by_region\<close>
  (module \<^verbatim>\<open>pummeler.sort\<close>, not among the sources). With \<open>voters_only\<close> only
  citizens aged at least 18 are kept; with \<open>adj_inc\<close> every reported income field is
  multiplied by the adjustment factor of its record.
\<close>

definition eligible :: "person \<Rightarrow> bool" where
  "eligible r = (citizen r \<and> 18 \<le> age r)"

text \<open>
  Modelled from the spec: the income adjustment of one record: its reported income
  fields times its adjustment factor, everything else unchanged.
\<close>

definition adjust_income :: "schema \<Rightarrow> person \<Rightarrow> person" where
  "adjust_income sch r =
     r\<lparr>cont := (\<lambda>f. if f \<in> set (income_fields sch) then cont r f * adj_factor r
                      else cont r f)\<rparr>"

text \<open>
  Modelled from the spec: the filter and the transform of one chunk, filter first.
\<close>

definition filter_transform :: "schema \<Rightarrow> bool \<Rightarrow> bool \<Rightarrow> person list \<Rightarrow> person list" where
  "filter_transform sch voters_only adj_inc chunk =
     (let kept = (if voters_only then filter eligible chunk else chunk)
      in if adj_inc then map (adjust_income sch) kept else kept)"

text \<open>
  Modelled from the spec: the statistics accumulator (modules \<^verbatim>\<open>pummeler.sort\<close> and
  \<^verbatim>\<open>pummeler.stats\<close>, not among the sources). Per categorical field the set of values
  seen; per continuous field the running weighted sum and weighted sum of squares;
  the running total weight. A chunk is summed first and then added to the running
  sums. Finalizing divides once; input with no weight at all, or a categorical
  field with no value seen, is the explicit empty-feature condition.
\<close>

record stats_state =
  seen :: "string \<Rightarrow> int set"
  wsum :: "string \<Rightarrow> real"
  wsumsq :: "string \<Rightarrow> real"
  wtotal :: real

text \<open>Modelled from the spec: the accumulator before the first chunk.\<close>

definition init_stats :: stats_state where
  "init_stats = \<lparr>seen = (\<lambda>f. {}), wsum = (\<lambda>f. 0), wsumsq = (\<lambda>f. 0), wtotal = 0\<rparr>"

text \<open>
  Modelled from the spec: one accumulation step: the values of the chunk join the sets
  seen, its weighted sums are added to the running sums.
\<close>

definition accumulate :: "stats_state \<Rightarrow> person list \<Rightarrow> stats_state" where
  "accumulate st chunk =
     \<lparr>seen = (\<lambda>f. seen st f \<union> set (map (\<lambda>r. cat r f) chunk)),
      wsum = (\<lambda>f. wsum st f + sum_list (map (\<lambda>r. weight r * cont r f) chunk)),
      wsumsq = (\<lambda>f. wsumsq st f + sum_list (map (\<lambda>r. weight r * (cont r f)\<^sup>2) chunk)),
      wtotal = wtotal st + sum_list (map weight chunk)\<rparr>"

text \<open>
  Modelled from the spec: finalizing the accumulator into the statistics, or the
  empty-feature condition.
\<close>

definition finalize :: "schema \<Rightarrow> stats_state \<Rightarrow> error + stats" where
  "finalize sch st =
     (if wtotal st = 0 \<or> (\<exists>f \<in> set (cat_fields sch). seen st f = {})
      then Inl EmptyFeatureError
      else Inr \<lparr>stats_schema = sch,
                vocab = (\<lambda>f. sorted_list_of_set (seen st f)),
                mean = (\<lambda>f. wsum st f / wtotal st),
                std = (\<lambda>f. sqrt (wsumsq st f / wtotal st - (wsum st f / wtotal st)\<^sup>2))\<rparr>)"

text \<open>
  Modelled from the spec: the region partitioner (module \<^verbatim>\<open>pummeler.sort\<close>, not among
  the sources). The rows of a chunk are split by region; each group is appended to
  the store of its region, created on demand, and the weights of the group are
  added to the running total of that store.
\<close>

definition append_store ::
  "(string \<times> region_store) list \<Rightarrow> string \<Rightarrow> person list \<Rightarrow> (string \<times> region_store) list"
where
  "append_store ss g sub =
     (case map_of ss g of
        None \<Rightarrow>
          ss @ [(g, \<lparr>store_rows = sub, total_wt = sum_list (map weight sub)\<rparr>)]
      | Some s \<Rightarrow>
          AList.update g \<lparr>store_rows = store_rows s @ sub,
                          total_wt = total_wt s + sum_list (map weight sub)\<rparr> ss)"

text \<open>
  Modelled from the spec: partitioning one chunk: its rows go to the stores of their
  regions, region by region.
\<close>

definition partition_chunk ::
  "(string \<times> region_store) list \<Rightarrow> person list \<Rightarrow> (string \<times> region_store) list"
where
  "partition_chunk ss chunk =
     foldl (\<lambda>acc g. append_store acc g (filter (\<lambda>r. region r = g) chunk)) ss
       (remdups (map region chunk))"

text \<open>
  Modelled from the spec: \<^verbatim>\<open>sort_by_region\<close> (module \<^verbatim>\<open>pummeler.sort\<close>, not among the
  sources), with the parameters \<^verbatim>\<open>cli.py\<close> passes. One pass over the chunks: each chunk
  is filtered and transformed once, and the same rows go to the accumulator and,
  unless \<open>stats_only\<close>, to the partitioner. The stores of the run are then written
  under the names \<^verbatim>\<open>out_fmt.format(region)\<close>, and the finalized statistics are
  returned. The table of supported versions (\<^verbatim>\<open>VERSIONS\<close> of \<^verbatim>\<open>pummeler.reader\<close>) is
  the parameter \<open>versions\<close>.
\<close>

definition sort_step ::
  "schema \<Rightarrow> bool \<Rightarrow> bool \<Rightarrow> bool \<Rightarrow> stats_state \<times> (string \<times> region_store) list
     \<Rightarrow> person list \<Rightarrow> stats_state \<times> (string \<times> region_store) list"
where
  "sort_step sch voters_only stats_only adj_inc acc chunk =
     (let c = filter_transform sch voters_only adj_inc chunk
      in (accumulate (fst acc) c,
          if stats_only then snd acc else partition_chunk (snd acc) c))"

text \<open>
  Modelled from the spec: the whole pass over the chunks, from the empty accumulator and
  no stores.
\<close>

definition sort_pass ::
  "schema \<Rightarrow> bool \<Rightarrow> bool \<Rightarrow> bool \<Rightarrow> person list list
     \<Rightarrow> stats_state \<times> (string \<times> region_store) list"
where
  "sort_pass sch voters_only stats_only adj_inc chunks =
     foldl (sort_step sch voters_only stats_only adj_inc) (init_stats, []) chunks"

text \<open>
  Modelled from the spec: writing the stores of the run, each under the name the pattern
  gives for its region.
\<close>

fun write_stores :: "string \<Rightarrow> world \<Rightarrow> (string \<times> region_store) list \<Rightarrow> error + world" where
  "write_stores out_fmt w [] = Inr w"
| "write_stores out_fmt w ((g, s) # ss) =
     and_then (str_format out_fmt g) (\<lambda>p.
       write_stores out_fmt (write_file w p (RegionFile s)) ss)"

text \<open>
  Modelled from the spec: \<^verbatim>\<open>sort_by_region\<close> itself: version
  check, chunk size check, read, pass, write, finalize.
\<close>

definition sort_by_region ::
  "(string \<Rightarrow> schema option) \<Rightarrow> source \<Rightarrow> string \<Rightarrow> bool \<Rightarrow> bool \<Rightarrow> bool \<Rightarrow> string \<Rightarrow> int
     \<Rightarrow> world \<Rightarrow> error + stats \<times> world"
where
  "sort_by_region versions src out_fmt voters_only stats_only adj_inc version chunksize w =
     (case versions version of
        None \<Rightarrow> Inl SchemaVersionError
      | Some sch \<Rightarrow>
          if chunksize < 1 then Inl ValueError
          else
            and_then (read_source w src) (\<lambda>inputs.
              let chunks = concat (map (chunks_of (nat chunksize)) inputs);
                  res = sort_pass sch voters_only stats_only adj_inc chunks
              in and_then (write_stores out_fmt w (snd res)) (\<lambda>w'.
                 and_then (finalize sch (fst res)) (\<lambda>st. Inr (st, w')))))"

text \<open>
  Modelled from the spec: \<^verbatim>\<open>save_stats\<close> and \<^verbatim>\<open>load_stats\<close> (module \<^verbatim>\<open>pummeler.stats\<close>,
  not among the sources): the statistics are persisted under a name and read back.
\<close>

definition save_stats :: "world \<Rightarrow> string \<Rightarrow> stats \<Rightarrow> world" where
  "save_stats w p st = write_file w p (StatsFile st)"

text \<open>
  Modelled from the spec: reading the persisted statistics back; any other file is not a
  statistics file.
\<close>

definition load_stats :: "world \<Rightarrow> string \<Rightarrow> error + stats" where
  "load_stats w p =
     and_then (read_file w p) (\<lambda>f. case f of StatsFile st \<Rightarrow> Inr st | _ \<Rightarrow> Inl IOError)"

subsection \<open>The sort command\<close>

text \<open>
  The options of \<^verbatim>\<open>pummel sort\<close> as \<^verbatim>\<open>argparse\<close> leaves them. The two format flags
  share the destination \<open>voters_only\<close>: it starts at its default \<open>True\<close>,
  \<^verbatim>\<open>--voters-only\<close> stores \<open>True\<close>, \<^verbatim>\<open>--all-people\<close> stores \<open>False\<close>, and the two
  exclude each other.
\<close>

datatype format_flag = VotersOnlyFlag | AllPeopleFlag

definition parse_format_flags :: "format_flag list \<Rightarrow> error + bool" where
  "parse_format_flags flags =
     (if VotersOnlyFlag \<in> set flags \<and> AllPeopleFlag \<in> set flags then Inl ArgumentError
      else Inr (AllPeopleFlag \<notin> set flags))"

record sort_args =
  zipfile :: "string option"
  csv_files :: "string list option"
  out_dir :: string
  sort_chunksize :: int
  stats_only :: bool
  voters_only :: bool
  version :: string

text \<open>\<^verbatim>\<open>args.zipfile or args.csv_files\<close>: an empty string counts as absent.\<close>

definition sort_source :: "sort_args \<Rightarrow> source" where
  "sort_source args =
     (let csvs = (case csv_files args of None \<Rightarrow> NoSource | Some ps \<Rightarrow> FromCsvs ps)
      in case zipfile args of
           None \<Rightarrow> csvs
         | Some z \<Rightarrow> if z = [] then csvs else FromZip z)"

definition do_sort :: "(string \<Rightarrow> schema option) \<Rightarrow> sort_args \<Rightarrow> world \<Rightarrow> error + world" where
  "do_sort versions args w =
     and_then
       (sort_by_region versions (sort_source args)
          (path_join (out_dir args) ''feats_{}.h5'')
          (voters_only args) (stats_only args) True (version args) (sort_chunksize args) w)
       (\<lambda>res. Inr (save_stats (snd res) (path_join (out_dir args) ''stats.h5'') (fst res)))"


section \<open>The featurize phase: encoding and kernel mean embedding\<close>

text \<open>
  Modelled from the spec: the feature encoder (module \<^verbatim>\<open>pummeler.featurize\<close>, not
  among the sources). The design matrix has a one-hot column per recorded category
  of every categorical field, in sorted order, a standardized column per continuous
  field (zero where the standard deviation is zero) and, unless skipped, a column
  per allocation flag. Fields named in \<open>skip_feats\<close> give no columns. A category
  that the statistics have not recorded is an error.
\<close>

datatype column = OneHot string int | Standardized string | AllocFlag string

text \<open>
  Modelled from the spec: the decimal digit of a number below ten, for the names of
  one-hot columns.
\<close>

definition digit_char :: "nat \<Rightarrow> char" where
  "digit_char d = ''0123456789'' ! (d mod 10)"

text \<open>
  Modelled from the spec: the decimal numeral of a natural number, for the names of
  one-hot columns.
\<close>

function string_of_nat :: "nat \<Rightarrow> string" where
  "string_of_nat n =
     (if n < 10 then [digit_char n] else string_of_nat (n div 10) @ [digit_char (n mod 10)])"
  by pat_completeness auto
termination
  by (relation "measure id") auto

declare string_of_nat.simps [simp del]

text \<open>Modelled from the spec: the decimal numeral of an integer category value.\<close>

definition string_of_int :: "int \<Rightarrow> string" where
  "string_of_int i =
     (if i < 0 then CHR ''-'' # string_of_nat (nat (- i)) else string_of_nat (nat i))"

text \<open>
  Modelled from the spec: the feature name of a column: field and category for a one-hot
  column, the field otherwise.
\<close>

definition column_name :: "column \<Rightarrow> string" where
  "column_name c =
     (case c of
        OneHot f v \<Rightarrow> f @ ''_'' @ string_of_int v
      | Standardized f \<Rightarrow> f
      | AllocFlag f \<Rightarrow> f)"

text \<open>
  Modelled from the spec: the fields that \<open>skip_feats\<close> does not exclude.
\<close>

definition kept_fields :: "string list \<Rightarrow> string list \<Rightarrow> string list" where
  "kept_fields skip fs = filter (\<lambda>f. f \<notin> set skip) fs"

text \<open>Modelled from the spec: the columns of the design matrix, in their fixed order.\<close>

definition columns :: "stats \<Rightarrow> bool \<Rightarrow> string list \<Rightarrow> column list" where
  "columns st skip_alloc skip =
     concat (map (\<lambda>f. map (OneHot f) (vocab st f))
               (kept_fields skip (cat_fields (stats_schema st))))
     @ map Standardized (kept_fields skip (cont_fields (stats_schema st)))
     @ (if skip_alloc then []
        else map AllocFlag (kept_fields skip (alloc_fields (stats_schema st))))"

text \<open>
  Modelled from the spec: the entry of one row in one column of the design matrix.
\<close>

definition column_value :: "stats \<Rightarrow> person \<Rightarrow> column \<Rightarrow> real" where
  "column_value st r c =
     (case c of
        OneHot f v \<Rightarrow> (if cat r f = v then 1 else 0)
      | Standardized f \<Rightarrow> (if std st f = 0 then 0 else (cont r f - mean st f) / std st f)
      | AllocFlag f \<Rightarrow> (if alloc r f then 1 else 0))"

text \<open>
  Modelled from the spec: encoding one row; a category outside the recorded vocabulary
  is an error.
\<close>

definition encode_row :: "stats \<Rightarrow> string list \<Rightarrow> column list \<Rightarrow> person \<Rightarrow> error + real list" where
  "encode_row st skip cols r =
     (if \<exists>f \<in> set (kept_fields skip (cat_fields (stats_schema st))). cat r f \<notin> set (vocab st f)
      then Inl UnknownCategoryError
      else Inr (map (column_value st r) cols))"

text \<open>
  Modelled from the spec: the kernel embedding engine (module \<^verbatim>\<open>pummeler.featurize\<close>,
  not among the sources). Per region it keeps running weighted sums of the encoded
  rows and of their random Fourier features \<open>[cos (F x), sin (F x)] / sqrt n_freqs\<close>,
  the running total weight and the number of rows taken, chunk after chunk. A subset
  predicate restricts the rows before they are encoded. At the end the sums are
  divided by the total weight; when no row was taken the result is the untouched
  accumulator with weight 0. The spec gives no value for rows whose weights sum to
  zero: that case is the error \<open>UndefinedAverage\<close>.
\<close>

record accumulator =
  acc_lin :: "real list"
  acc_rff :: "real list"
  acc_wt :: real
  acc_rows :: nat

text \<open>
  Modelled from the spec: the embedding of one region: linear embedding, Fourier
  embedding, total weight.
\<close>

record region_embedding =
  lin :: "real list"
  rff :: "real list"
  emb_weight :: real

text \<open>
  Modelled from the spec: the accumulator of a region before its first row: zero
  vectors, no weight, no rows.
\<close>

definition init_acc :: "nat \<Rightarrow> nat \<Rightarrow> accumulator" where
  "init_acc d k = \<lparr>acc_lin = replicate d 0, acc_rff = replicate k 0, acc_wt = 0, acc_rows = 0\<rparr>"

text \<open>Modelled from the spec: the sum of two vectors.\<close>

definition vadd :: "real list \<Rightarrow> real list \<Rightarrow> real list" where
  "vadd xs ys = map2 (+) xs ys"

text \<open>Modelled from the spec: a vector times a weight.\<close>

definition scale :: "real \<Rightarrow> real list \<Rightarrow> real list" where
  "scale w xs = map ((*) w) xs"

text \<open>Modelled from the spec: the inner product of a frequency and an encoded row.\<close>

definition dot :: "real list \<Rightarrow> real list \<Rightarrow> real" where
  "dot xs ys = sum_list (map2 (*) xs ys)"

text \<open>
  Modelled from the spec: the random Fourier features of an encoded row for the
  frequency matrix \<open>F\<close>.
\<close>

definition rff_features :: "real list list \<Rightarrow> real list \<Rightarrow> real list" where
  "rff_features F x =
     map (\<lambda>v. v / sqrt (real (length F)))
       (map (\<lambda>fr. cos (dot fr x)) F @ map (\<lambda>fr. sin (dot fr x)) F)"

text \<open>Modelled from the spec: taking one row into the running weighted sums.\<close>

definition embed_row ::
  "stats \<Rightarrow> string list \<Rightarrow> column list \<Rightarrow> real list list option \<Rightarrow> accumulator \<Rightarrow> person
     \<Rightarrow> error + accumulator"
where
  "embed_row st skip cols F acc r =
     and_then (encode_row st skip cols r) (\<lambda>x.
       Inr \<lparr>acc_lin = vadd (acc_lin acc) (scale (weight r) x),
            acc_rff = (case F of
                         None \<Rightarrow> acc_rff acc
                       | Some fm \<Rightarrow> vadd (acc_rff acc) (scale (weight r) (rff_features fm x))),
            acc_wt = acc_wt acc + weight r,
            acc_rows = Suc (acc_rows acc)\<rparr>)"

text \<open>Modelled from the spec: taking the rows of a chunk one after the other.\<close>

fun embed_rows ::
  "stats \<Rightarrow> string list \<Rightarrow> column list \<Rightarrow> real list list option \<Rightarrow> accumulator \<Rightarrow> person list
     \<Rightarrow> error + accumulator"
where
  "embed_rows st skip cols F acc [] = Inr acc"
| "embed_rows st skip cols F acc (r # rs) =
     and_then (embed_row st skip cols F acc r) (\<lambda>a. embed_rows st skip cols F a rs)"

text \<open>
  Modelled from the spec: the rows of a chunk that a subset predicate keeps; without a
  predicate, all of them.
\<close>

definition select_rows :: "(person \<Rightarrow> bool) option \<Rightarrow> person list \<Rightarrow> person list" where
  "select_rows sel chunk = (case sel of None \<Rightarrow> chunk | Some p \<Rightarrow> filter p chunk)"

text \<open>
  Modelled from the spec: the streamed accumulation over the chunks of one region.
\<close>

fun embed_chunks ::
  "stats \<Rightarrow> string list \<Rightarrow> column list \<Rightarrow> real list list option \<Rightarrow> (person \<Rightarrow> bool) option
     \<Rightarrow> accumulator \<Rightarrow> person list list \<Rightarrow> error + accumulator"
where
  "embed_chunks st skip cols F sel acc [] = Inr acc"
| "embed_chunks st skip cols F sel acc (c # cs) =
     and_then (embed_rows st skip cols F acc (select_rows sel c))
       (\<lambda>a. embed_chunks st skip cols F sel a cs)"

text \<open>Modelled from the spec: the weighted averages at the end of a region.\<close>

definition finish :: "accumulator \<Rightarrow> error + region_embedding" where
  "finish acc =
     (if acc_rows acc = 0
      then Inr \<lparr>lin = acc_lin acc, rff = acc_rff acc, emb_weight = 0\<rparr>
      else if acc_wt acc = 0 then Inl UndefinedAverage
      else Inr \<lparr>lin = map (\<lambda>v. v / acc_wt acc) (acc_lin acc),
                rff = map (\<lambda>v. v / acc_wt acc) (acc_rff acc),
                emb_weight = acc_wt acc\<rparr>)"

text \<open>
  Modelled from the spec: the embedding of one region for one subset: accumulate over
  its chunks, then average.
\<close>

definition embed ::
  "stats \<Rightarrow> string list \<Rightarrow> column list \<Rightarrow> real list list option \<Rightarrow> (person \<Rightarrow> bool) option
     \<Rightarrow> person list list \<Rightarrow> error + region_embedding"
where
  "embed st skip cols F sel chunks =
     and_then
       (embed_chunks st skip cols F sel
          (init_acc (length cols) (case F of None \<Rightarrow> 0 | Some fm \<Rightarrow> 2 * length fm)) chunks)
       finish"


text \<open>
  Modelled from the spec: \<^verbatim>\<open>get_embeddings\<close> (module \<^verbatim>\<open>pummeler.featurize\<close>, not among
  the sources), with the keyword arguments \<^verbatim>\<open>cli.py\<close> passes. Every region file is read
  in chunks and embedded once per subset query, or once over all its rows when no
  query is given. Without queries the result arrays are indexed by region (and
  feature); with queries they gain a last axis with one entry per query, a layout
  the spec leaves open. With \<open>skip_rbf\<close> the result is the triple of linear
  embedding, region weights and feature names; otherwise it also has the Fourier
  embedding, the frequencies and the bandwidth. The random draw of the frequencies,
  the median heuristic for the bandwidth and the evaluation of a query string on a
  row are outside this model and come in as \<open>externals\<close>. The flags
  \<open>do_my_proc\<close> and \<open>do_my_additive\<close> are carried and not interpreted.
\<close>

record externals =
  generate :: "nat \<Rightarrow> nat \<Rightarrow> real \<Rightarrow> bool \<Rightarrow> int option \<Rightarrow> real list list"
  median_bandwidth :: "stats \<Rightarrow> real"
  compile_query :: "string \<Rightarrow> error + (person \<Rightarrow> bool)"

record emb_kwargs =
  k_files :: "string list"
  k_stats :: stats
  k_chunksize :: int
  k_skip_rbf :: bool
  k_skip_feats :: "string list option"
  k_subsets :: "string option"
  k_skip_alloc_flags :: bool
  k_seed :: "int option"
  k_n_freqs :: int
  k_bandwidth :: "real option"
  k_rff_orthogonal :: bool
  k_do_my_proc :: bool
  k_do_my_additive :: bool

text \<open>
  Modelled from the spec: reading one region store (the HDF5 table written by the
  sorter).
\<close>

definition read_store :: "world \<Rightarrow> string \<Rightarrow> error + region_store" where
  "read_store w p =
     and_then (read_file w p) (\<lambda>f. case f of RegionFile s \<Rightarrow> Inr s | _ \<Rightarrow> Inl IOError)"

text \<open>
  Modelled from the spec: turning the query strings into row predicates, in order.
\<close>

fun compile_queries ::
  "(string \<Rightarrow> error + (person \<Rightarrow> bool)) \<Rightarrow> string list \<Rightarrow> error + (person \<Rightarrow> bool) option list"
where
  "compile_queries cq [] = Inr []"
| "compile_queries cq (q # qs) =
     and_then (cq q) (\<lambda>p.
     and_then (compile_queries cq qs) (\<lambda>ps. Inr (Some p # ps)))"

text \<open>
  Modelled from the spec: the subsets of a run: the comma-separated queries, or the one
  subset of all rows.
\<close>

definition subset_predicates ::
  "externals \<Rightarrow> string option \<Rightarrow> error + (person \<Rightarrow> bool) option list"
where
  "subset_predicates ext subsets =
     (case subsets of
        None \<Rightarrow> Inr [None]
      | Some qs \<Rightarrow> compile_queries (compile_query ext) (split_on CHR '','' qs))"

text \<open>Modelled from the spec: the embeddings of one region, one per subset.\<close>

fun embed_subsets ::
  "stats \<Rightarrow> string list \<Rightarrow> column list \<Rightarrow> real list list option \<Rightarrow> person list list
     \<Rightarrow> (person \<Rightarrow> bool) option list \<Rightarrow> error + region_embedding list"
where
  "embed_subsets st skip cols F chunks [] = Inr []"
| "embed_subsets st skip cols F chunks (p # ps) =
     and_then (embed st skip cols F p chunks) (\<lambda>e.
     and_then (embed_subsets st skip cols F chunks ps) (\<lambda>es. Inr (e # es)))"

text \<open>
  Modelled from the spec: the embeddings of all region files, in the order of the files.
\<close>

fun embed_files ::
  "world \<Rightarrow> stats \<Rightarrow> string list \<Rightarrow> column list \<Rightarrow> real list list option \<Rightarrow> nat
     \<Rightarrow> (person \<Rightarrow> bool) option list \<Rightarrow> string list \<Rightarrow> error + region_embedding list list"
where
  "embed_files w st skip cols F n preds [] = Inr []"
| "embed_files w st skip cols F n preds (f # fs) =
     and_then (read_store w f) (\<lambda>s.
     and_then (embed_subsets st skip cols F (chunks_of n (store_rows s)) preds) (\<lambda>es.
     and_then (embed_files w st skip cols F n preds fs) (\<lambda>rest. Inr (es # rest))))"

text \<open>Modelled from the spec: the result array of per-region, per-subset vectors.\<close>

definition pack_vectors :: "bool \<Rightarrow> nat \<Rightarrow> real list list list \<Rightarrow> ndarray" where
  "pack_vectors no_queries d vss =
     (if no_queries then num_matrix d (concat vss)
      else \<lparr>shape = [length vss, d, (case vss of [] \<Rightarrow> 0 | vs # _ \<Rightarrow> length vs)],
            cells = map Num (concat (map (\<lambda>vs. concat (transpose vs)) vss))\<rparr>)"

text \<open>
  Modelled from the spec: the result array of per-region, per-subset total weights.
\<close>

definition pack_weights :: "bool \<Rightarrow> real list list \<Rightarrow> ndarray" where
  "pack_weights no_queries wss =
     (if no_queries then num_array (concat wss)
      else num_matrix (case wss of [] \<Rightarrow> 0 | ws # _ \<Rightarrow> length ws) wss)"

text \<open>Modelled from the spec: \<^verbatim>\<open>get_embeddings\<close> itself.\<close>

definition get_embeddings :: "externals \<Rightarrow> emb_kwargs \<Rightarrow> world \<Rightarrow> error + ndarray list" where
  "get_embeddings ext kw w =
     (if k_chunksize kw < 1 then Inl ValueError
      else if \<not> k_skip_rbf kw \<and> k_n_freqs kw < 0 then Inl ValueError
      else
        let st = k_stats kw;
            skip = (case k_skip_feats kw of None \<Rightarrow> [] | Some fs \<Rightarrow> fs);
            cols = columns st (k_skip_alloc_flags kw) skip;
            bw = (case k_bandwidth kw of None \<Rightarrow> median_bandwidth ext st | Some b \<Rightarrow> b);
            fm = generate ext (nat (k_n_freqs kw)) (length cols) bw
                   (k_rff_orthogonal kw) (k_seed kw);
            F = (if k_skip_rbf kw then None else Some fm);
            no_queries = (k_subsets kw = None)
        in and_then (subset_predicates ext (k_subsets kw)) (\<lambda>preds.
           and_then (embed_files w st skip cols F (nat (k_chunksize kw)) preds (k_files kw))
             (\<lambda>ess.
                let emb_lin = pack_vectors no_queries (length cols) (map (map lin) ess);
                    emb_rff = pack_vectors no_queries (2 * length fm) (map (map rff) ess);
                    region_weights = pack_weights no_queries (map (map emb_weight) ess);
                    feature_names = str_array (map column_name cols)
                in Inr (if k_skip_rbf kw then [emb_lin, region_weights, feature_names]
                        else [emb_lin, emb_rff, region_weights,
                              num_matrix (length cols) fm, scalar_array (Num bw),
                              feature_names]))))"

subsection \<open>The featurize command\<close>

text \<open>
  \<^verbatim>\<open>glob(os.path.join(dir, 'feats_*.h5'))\<close>: the pattern is split into directory and
  name, the names of the directory that match \<^verbatim>\<open>feats_*.h5\<close> are joined to the
  directory again. A directory that itself contains \<^verbatim>\<open>*\<close>, \<^verbatim>\<open>?\<close> or \<^verbatim>\<open>[\<close> would be
  expanded by \<^verbatim>\<open>glob\<close>; this model reports it as \<open>NotModelled\<close>.
\<close>

definition has_magic :: "string \<Rightarrow> bool" where
  "has_magic s = (CHR ''*'' \<in> set s \<or> CHR ''?'' \<in> set s \<or> CHR ''['' \<in> set s)"

definition matches_feats :: "string \<Rightarrow> bool" where
  "matches_feats n = (startswith n ''feats_'' \<and> endswith n ''.h5'' \<and> 9 \<le> length n)"

definition glob_feats :: "world \<Rightarrow> string \<Rightarrow> error + string list" where
  "glob_feats w d =
     (let d' = dirname (path_join d ''feats_*.h5'')
      in if has_magic d' then Inl NotModelled
         else
           let names = (case listdir w (if d' = [] then ''.'' else d') of
                          Inl e \<Rightarrow> [] | Inr ns \<Rightarrow> ns)
           in Inr (map (\<lambda>n. if d' = [] then n else path_join d' n)
                     (filter matches_feats names)))"

text \<open>\<^verbatim>\<open>np.savez\<close> appends \<^verbatim>\<open>.npz\<close> to a file name that does not end in it.\<close>

definition npz_path :: "string \<Rightarrow> string" where
  "npz_path p = (if endswith p ''.npz'' then p else p @ ''.npz'')"

definition savez :: "world \<Rightarrow> string \<Rightarrow> (string \<times> ndarray) list \<Rightarrow> world" where
  "savez w p entries = write_file w (npz_path p) (Npz entries)"

record featurize_args =
  f_dir :: string
  f_outfile :: "string option"
  f_chunksize :: int
  skip_rbf :: bool
  n_freqs :: int
  bandwidth :: "real option"
  rff_orthogonal :: bool
  seed :: "int option"
  skip_feats :: "string list option"
  skip_alloc_flags :: bool
  do_my_proc :: bool
  do_my_additive :: bool
  subsets :: "string option"

definition featurize_outfile :: "featurize_args \<Rightarrow> string" where
  "featurize_outfile args =
     (case f_outfile args of
        None \<Rightarrow> path_join (f_dir args) ''embeddings.npz''
      | Some p \<Rightarrow> p)"

definition region_name_of :: "string \<Rightarrow> string" where
  "region_name_of f = py_slice (basename f) 6 (- 3)"

definition featurize_kwargs :: "featurize_args \<Rightarrow> string list \<Rightarrow> stats \<Rightarrow> emb_kwargs" where
  "featurize_kwargs args fs st =
     \<lparr>k_files = fs, k_stats = st, k_chunksize = f_chunksize args,
      k_skip_rbf = skip_rbf args,
      k_skip_feats = skip_feats args, k_subsets = subsets args,
      k_skip_alloc_flags = skip_alloc_flags args,
      k_seed = seed args,
      k_n_freqs = n_freqs args, k_bandwidth = bandwidth args,
      k_rff_orthogonal = rff_orthogonal args,
      k_do_my_proc = do_my_proc args, k_do_my_additive = do_my_additive args\<rparr>"

definition subset_queries_array :: "string option \<Rightarrow> ndarray" where
  "subset_queries_array q =
     scalar_array (case q of None \<Rightarrow> PyNone | Some s \<Rightarrow> Str s)"

text \<open>
  \<^verbatim>\<open>do_featurize\<close>. The function \<^verbatim>\<open>get_embeddings\<close> is the parameter \<open>ge\<close>; its result
  is a tuple, and unpacking a tuple of the wrong length is a \<open>ValueError\<close>.
\<close>

definition do_featurize ::
  "(emb_kwargs \<Rightarrow> world \<Rightarrow> error + ndarray list) \<Rightarrow> featurize_args \<Rightarrow> world \<Rightarrow> error + world"
where
  "do_featurize ge args w =
     (let outfile = featurize_outfile args
      in and_then (load_stats w (path_join (f_dir args) ''stats.h5'')) (\<lambda>st.
         and_then (glob_feats w (f_dir args)) (\<lambda>fs.
           let region_names = map region_name_of fs;
               kwargs = featurize_kwargs args fs st;
               res = [(''region_names'', str_array region_names),
                      (''subset_queries'', subset_queries_array (subsets args))]
           in if skip_rbf args then
                and_then (ge kwargs w) (\<lambda>t.
                  case t of
                    [emb_lin, region_weights, feature_names] \<Rightarrow>
                      Inr (savez w outfile
                             ([(''emb_lin'', emb_lin), (''region_weights'', region_weights),
                               (''feature_names'', feature_names)] @ res))
                  | _ \<Rightarrow> Inl ValueError)
              else
                and_then (ge kwargs w) (\<lambda>t.
                  case t of
                    [emb_lin, emb_rff, rws, fs', bw, fns] \<Rightarrow>
                      Inr (savez w outfile
                             ([(''emb_lin'', emb_lin), (''emb_rff'', emb_rff),
                               (''region_weights'', rws), (''freqs'', fs'),
                               (''bandwidth'', bw), (''feature_names'', fns)] @ res))
                  | _ \<Rightarrow> Inl ValueError))))"


subsection \<open>The export command\<close>

text \<open>
  The pandas operations of \<^verbatim>\<open>do_export\<close>. A frame is built from an array with one
  or two axes and gets the labels \<open>0, 1, \<dots>\<close> for rows and columns; a new index or a
  new list of column labels must be an array with one axis of the right length.
\<close>

definition range_labels :: "nat \<Rightarrow> cell list" where
  "range_labels n = map (\<lambda>k. Num (real k)) [0..<n]"

definition rows_of :: "nat \<Rightarrow> nat \<Rightarrow> cell list \<Rightarrow> cell list list" where
  "rows_of n m cs = map (\<lambda>i. take m (drop (i * m) cs)) [0..<n]"

definition pd_DataFrame :: "ndarray \<Rightarrow> error + dataframe" where
  "pd_DataFrame a =
     (case shape a of
        [n] \<Rightarrow> Inr \<lparr>df_index = range_labels n, df_columns = range_labels 1,
                     df_values = rows_of n 1 (cells a)\<rparr>
      | [n, m] \<Rightarrow> Inr \<lparr>df_index = range_labels n, df_columns = range_labels m,
                        df_values = rows_of n m (cells a)\<rparr>
      | _ \<Rightarrow> Inl ValueError)"

definition set_index :: "dataframe \<Rightarrow> ndarray \<Rightarrow> error + dataframe" where
  "set_index df a =
     (case shape a of
        [n] \<Rightarrow> if length (cells a) = length (df_index df)
                then Inr (df\<lparr>df_index := cells a\<rparr>) else Inl ValueError
      | _ \<Rightarrow> Inl ValueError)"

definition set_columns :: "dataframe \<Rightarrow> ndarray \<Rightarrow> error + dataframe" where
  "set_columns df a =
     (case shape a of
        [n] \<Rightarrow> if length (cells a) = length (df_columns df)
                then Inr (df\<lparr>df_columns := cells a\<rparr>) else Inl ValueError
      | _ \<Rightarrow> Inl ValueError)"

definition to_csv :: "world \<Rightarrow> dataframe \<Rightarrow> string \<Rightarrow> string \<Rightarrow> world" where
  "to_csv w df p index_label =
     write_file w p
       (Csv \<lparr>csv_index_label = index_label, csv_header = df_columns df,
             csv_rows = zip (df_index df) (df_values df)\<rparr>)"

definition np_load :: "world \<Rightarrow> string \<Rightarrow> error + (string \<times> ndarray) list" where
  "np_load w p =
     and_then (read_file w p) (\<lambda>f. case f of Npz entries \<Rightarrow> Inr entries | _ \<Rightarrow> Inl IOError)"

definition npz_get :: "(string \<times> ndarray) list \<Rightarrow> string \<Rightarrow> error + ndarray" where
  "npz_get entries k =
     (case map_of entries k of None \<Rightarrow> Inl (KeyError k) | Some a \<Rightarrow> Inr a)"

record export_args =
  e_dir :: string
  e_infile :: "string option"
  e_out_name :: "string option"

definition export_infile :: "export_args \<Rightarrow> string" where
  "export_infile args =
     (case e_infile args of
        None \<Rightarrow> path_join (e_dir args) ''embeddings.npz''
      | Some p \<Rightarrow> p)"

definition export_out_name :: "export_args \<Rightarrow> world \<Rightarrow> error + string" where
  "export_out_name args w =
     (case e_out_name args of
        Some n \<Rightarrow> Inr n
      | None \<Rightarrow>
          and_then (relpath (cwd w) (export_infile args) (e_dir args)) (\<lambda>rel.
            Inr (if CHR ''/'' \<in> set rel then ''embeddings''
                 else if endswith rel ''.npz'' then py_slice rel 0 (- 4) else rel)))"

definition export_linear ::
  "string \<Rightarrow> (string \<times> ndarray) list \<Rightarrow> world \<Rightarrow> error + world"
where
  "export_linear out_pattern data w =
     and_then (str_format out_pattern ''linear'') (\<lambda>path.
     and_then (npz_get data ''emb_lin'') (\<lambda>emb.
     and_then (pd_DataFrame emb) (\<lambda>df.
     and_then (npz_get data ''region_names'') (\<lambda>names.
     and_then (set_index df names) (\<lambda>df1.
     and_then (npz_get data ''feature_names'') (\<lambda>feats.
     and_then (set_columns df1 feats) (\<lambda>df2.
       Inr (print_line (to_csv w df2 path ''region'')
              (''Linear embeddings saved in '' @ path)))))))))"

definition export_rff ::
  "string \<Rightarrow> (string \<times> ndarray) list \<Rightarrow> world \<Rightarrow> error + world"
where
  "export_rff out_pattern data w =
     and_then (str_format out_pattern ''rff'') (\<lambda>path.
     and_then (npz_get data ''emb_rff'') (\<lambda>emb.
     and_then (pd_DataFrame emb) (\<lambda>df.
     and_then (npz_get data ''region_names'') (\<lambda>names.
     and_then (set_index df names) (\<lambda>df1.
       Inr (print_line (to_csv w df1 path ''region'')
              (''Fourier embeddings saved in '' @ path)))))))"

text \<open>
  \<^verbatim>\<open>do_export\<close> returns the world as the command leaves it together with the exception
  that ended it, if any: a file written before the exception stays written.
\<close>

definition export_frames ::
  "string \<Rightarrow> (string \<times> ndarray) list \<Rightarrow> world \<Rightarrow> world \<times> error option"
where
  "export_frames out_pattern data w =
     (case export_linear out_pattern data w of
        Inl e \<Rightarrow> (w, Some e)
      | Inr w1 \<Rightarrow>
          if ''emb_rff'' \<in> fst ` set data then
            (case export_rff out_pattern data w1 of
               Inl e \<Rightarrow> (w1, Some e)
             | Inr w2 \<Rightarrow> (w2, None))
          else (w1, None))"

definition do_export :: "export_args \<Rightarrow> world \<Rightarrow> world \<times> error option" where
  "do_export args w =
     (case export_out_name args w of
        Inl e \<Rightarrow> (w, Some e)
      | Inr out_name \<Rightarrow>
          (let out_pattern = path_join (e_dir args) (out_name @ ''_{}.csv'')
           in (case np_load w (export_infile args) of
                 Inl e \<Rightarrow> (w, Some e)
               | Inr data \<Rightarrow> export_frames out_pattern data w)))"

subsection \<open>The weight-counts command\<close>

record weight_counts_args =
  w_dir :: string
  w_outfile :: "string option"

text \<open>
  \<^verbatim>\<open>f['total_wt'][()]\<close> on an opened HDF5 file: a region store has the entry, the
  statistics file has not, anything else does not open.
\<close>

definition read_total_wt :: "world \<Rightarrow> string \<Rightarrow> error + real" where
  "read_total_wt w p =
     and_then (read_file w p) (\<lambda>f.
       case f of
         RegionFile s \<Rightarrow> Inr (total_wt s)
       | StatsFile st \<Rightarrow> Inl (KeyError ''total_wt'')
       | _ \<Rightarrow> Inl IOError)"

definition weight_counts_region :: "string \<Rightarrow> string option" where
  "weight_counts_region fn =
     (if startswith fn ''feats_'' \<and> endswith fn ''.h5''
      then Some (py_slice fn (int (length ''feats_'')) (- int (length ''.h5'')))
      else None)"

fun weight_loop ::
  "world \<Rightarrow> string \<Rightarrow> (string \<times> real) list \<Rightarrow> string list \<Rightarrow> error + (string \<times> real) list"
where
  "weight_loop w d mapping [] = Inr mapping"
| "weight_loop w d mapping (fn # fns) =
     (case weight_counts_region fn of
        None \<Rightarrow> weight_loop w d mapping fns
      | Some r \<Rightarrow>
          and_then (read_total_wt w (path_join d fn)) (\<lambda>t.
            weight_loop w d (AList.update r t mapping) fns))"

text \<open>
  The frame built from an empty mapping has no column, so naming its one column
  fails.
\<close>

definition do_weight_counts :: "weight_counts_args \<Rightarrow> world \<Rightarrow> error + world" where
  "do_weight_counts args w =
     (let outfile = (case w_outfile args of
                       None \<Rightarrow> path_join (w_dir args) ''weight_counts.csv''
                     | Some p \<Rightarrow> p)
      in and_then (listdir w (w_dir args)) (\<lambda>names.
         and_then (weight_loop w (w_dir args) [] names) (\<lambda>mapping.
           if mapping = [] then Inl ValueError
           else Inr (write_file w outfile
                       (Csv \<lparr>csv_index_label = ''region'', csv_header = [Str ''total_wt''],
                             csv_rows = map (\<lambda>(r, t). (Str r, [Num t])) mapping\<rparr>)))))"


section \<open>Shapes of archives and tables\<close>

text \<open>The number of rows and columns of the frame pandas builds from an array.\<close>

definition frame_dims :: "ndarray \<Rightarrow> (nat \<times> nat) option" where
  "frame_dims a = (case shape a of [n] \<Rightarrow> Some (n, 1) | [n, m] \<Rightarrow> Some (n, m) | _ \<Rightarrow> None)"

text \<open>
  A table is the export of the array \<open>emb\<close> for the regions \<open>names\<close> under the column
  labels \<open>header\<close>: the index column is called \<^verbatim>\<open>region\<close> and holds the region names in
  order, there is one row per region name and one column per label, and the rows
  are the rows of the array.
\<close>

definition region_table :: "csv_table \<Rightarrow> ndarray \<Rightarrow> ndarray \<Rightarrow> cell list \<Rightarrow> bool" where
  "region_table t emb names header =
     (csv_index_label t = ''region''
      \<and> map fst (csv_rows t) = cells names
      \<and> length (csv_rows t) = length (cells names)
      \<and> csv_header t = header
      \<and> (case frame_dims emb of
            None \<Rightarrow> False
          | Some (n, m) \<Rightarrow>
              n = length (cells names) \<and> m = length header
              \<and> map snd (csv_rows t) = rows_of n m (cells emb)))"

text \<open>
  An embedding archive as the external interface describes it: a linear embedding
  matrix of regions by features with a name for every region and every feature,
  and, when present, a Fourier embedding matrix with a row per region.
\<close>

definition embedding_archive :: "(string \<times> ndarray) list \<Rightarrow> bool" where
  "embedding_archive data =
     (case (map_of data ''emb_lin'', map_of data ''region_names'',
            map_of data ''feature_names'') of
        (Some emb, Some names, Some feats) \<Rightarrow>
          shape emb = [length (cells names), length (cells feats)]
          \<and> shape names = [length (cells names)]
          \<and> shape feats = [length (cells feats)]
          \<and> (case map_of data ''emb_rff'' of
                None \<Rightarrow> True
              | Some e \<Rightarrow> shape e = [length (cells names), shape e ! 1])
      | _ \<Rightarrow> False)"

section \<open>Auxiliary notions for the properties\<close>

text \<open>
  What appending the rows \<open>sub\<close> of one region does to the store of that region, if
  there is one: nothing when \<open>sub\<close> is empty, otherwise the rows are appended and
  their weights added, starting a new store where none exists.
\<close>

definition extend_store :: "region_store option \<Rightarrow> person list \<Rightarrow> region_store option" where
  "extend_store m sub =
     (if sub = [] then m
      else Some (case m of
                   None \<Rightarrow> \<lparr>store_rows = sub, total_wt = sum_list (map weight sub)\<rparr>
                 | Some s \<Rightarrow> \<lparr>store_rows = store_rows s @ sub,
                               total_wt = total_wt s + sum_list (map weight sub)\<rparr>))"

text \<open>A store whose running total is the sum of the weights of its rows.\<close>

definition consistent_store :: "region_store \<Rightarrow> bool" where
  "consistent_store s = (total_wt s = sum_list (map weight (store_rows s)))"

text \<open>Every region store in the file store has a total that is the sum of its weights.\<close>

definition stores_consistent :: "world \<Rightarrow> bool" where
  "stores_consistent w =
     list_all (\<lambda>p. case snd p of RegionFile s \<Rightarrow> consistent_store s | _ \<Rightarrow> True) (files w)"


section \<open>Example inputs\<close>

text \<open>Concrete inputs on which the theorems below are instantiated.\<close>

definition example_stats :: stats where
  "example_stats =
     \<lparr>stats_schema = \<lparr>cat_fields = [''SEX''], cont_fields = [''AGEP'', ''PINCP''],
                       income_fields = [''PINCP''], alloc_fields = [''FSEXP'']\<rparr>,
      vocab = (\<lambda>f. [1, 2]), mean = (\<lambda>f. 40), std = (\<lambda>f. 10)\<rparr>"

definition sorted_world :: world where
  "sorted_world =
     \<lparr>cwd = ''/w'',
      files = [(''/w/d/stats.h5'', StatsFile example_stats),
               (''/w/d/feats_0100100.h5'', RegionFile \<lparr>store_rows = [], total_wt = 0\<rparr>)],
      stdout = []\<rparr>"

definition linear_args :: featurize_args where
  "linear_args =
     \<lparr>f_dir = ''d'', f_outfile = None, f_chunksize = 8192, skip_rbf = True, n_freqs = 2048,
      bandwidth = None, rff_orthogonal = True, seed = None, skip_feats = None,
      skip_alloc_flags = True, do_my_proc = False, do_my_additive = False,
      subsets = None\<rparr>"

definition fourier_args :: featurize_args where
  "fourier_args =
     \<lparr>f_dir = ''d'', f_outfile = Some ''emb'', f_chunksize = 8192, skip_rbf = False,
      n_freqs = 1, bandwidth = Some 1, rff_orthogonal = True, seed = Some 0,
      skip_feats = None, skip_alloc_flags = True, do_my_proc = False,
      do_my_additive = False, subsets = Some ''SEX == 2''\<rparr>"

definition constant_embeddings :: "ndarray list \<Rightarrow> emb_kwargs \<Rightarrow> world \<Rightarrow> error + ndarray list" where
  "constant_embeddings t kw w = Inr t"

text \<open>A small archive without and one with a Fourier embedding, in a directory.\<close>

definition linear_archive :: "(string \<times> ndarray) list" where
  "linear_archive =
     [(''emb_lin'', num_matrix 2 [[1, 2], [3, 4], [5, 6]]),
      (''region_weights'', num_array [10, 20, 30]),
      (''feature_names'', str_array [''AGEP'', ''PINCP'']),
      (''region_names'', str_array [''0100100'', ''0100200'', ''0100300'']),
      (''subset_queries'', scalar_array PyNone)]"

definition fourier_archive :: "(string \<times> ndarray) list" where
  "fourier_archive =
     [(''emb_lin'', num_matrix 1 [[1], [2]]),
      (''emb_rff'', num_matrix 2 [[1, 0], [0, 1]]),
      (''region_weights'', num_array [10, 20]),
      (''freqs'', num_matrix 1 [[3]]),
      (''bandwidth'', scalar_array (Num 1)),
      (''feature_names'', str_array [''AGEP'']),
      (''region_names'', str_array [''A'', ''B'']),
      (''subset_queries'', scalar_array PyNone)]"

definition archive_world :: "(string \<times> ndarray) list \<Rightarrow> world" where
  "archive_world data =
     \<lparr>cwd = ''/w'', files = [(''/w/d/embeddings.npz'', Npz data)], stdout = []\<rparr>"

definition default_export_args :: export_args where
  "default_export_args = \<lparr>e_dir = ''d'', e_infile = None, e_out_name = None\<rparr>"

text \<open>A schema and five records of two regions, one under age and one not a citizen.\<close>

definition example_schema :: schema where
  "example_schema =
     \<lparr>cat_fields = [''SEX''], cont_fields = [''AGEP'', ''PINCP''],
      income_fields = [''PINCP''], alloc_fields = [''FSEXP'']\<rparr>"

definition example_person :: "string \<Rightarrow> bool \<Rightarrow> int \<Rightarrow> int \<Rightarrow> real \<Rightarrow> real \<Rightarrow> person" where
  "example_person g c a s inc wt =
     \<lparr>region = g, citizen = c, age = a, cat = (\<lambda>f. s),
      cont = (\<lambda>f. if f = ''PINCP'' then inc else real_of_int a), alloc = (\<lambda>f. False),
      adj_factor = 2, weight = wt\<rparr>"

definition example_rows :: "person list" where
  "example_rows =
     [example_person ''A'' True 30 1 100 2,
      example_person ''B'' True 17 2 0 5,
      example_person ''A'' False 40 2 300 7,
      example_person ''B'' True 50 1 200 3,
      example_person ''A'' True 18 2 50 4]"

text \<open>A world that holds the five records as one CSV file, and a sort run over it.\<close>

definition input_world :: world where
  "input_world =
     \<lparr>cwd = ''/w'', files = [(''/w/in.csv'', CsvInput example_rows)], stdout = []\<rparr>"

definition example_versions :: "string \<Rightarrow> schema option" where
  "example_versions v = (if v = ''2006-10'' then Some example_schema else None)"

definition example_sort_args :: sort_args where
  "example_sort_args =
     \<lparr>zipfile = None, csv_files = Some [''in.csv''], out_dir = ''out'', sort_chunksize = 2,
      stats_only = False, voters_only = True, version = ''2006-10''\<rparr>"

text \<open>
  A sorted directory with the statistics and the store of one region, and externals
  for the featurizer: no random frequencies, bandwidth one, and every query string
  read as the predicate of being older than a hundred.
\<close>

definition centenarian :: "person \<Rightarrow> bool" where
  "centenarian r = (100 < age r)"

definition example_externals :: externals where
  "example_externals =
     \<lparr>generate = (\<lambda>n d bw orth sd. []), median_bandwidth = (\<lambda>st. 1),
      compile_query = (\<lambda>q. Inr centenarian)\<rparr>"

definition region_world :: world where
  "region_world =
     \<lparr>cwd = ''/w'',
      files = [(''/w/d/stats.h5'', StatsFile example_stats),
               (''/w/d/feats_A.h5'',
                RegionFile \<lparr>store_rows = [example_person ''A'' True 30 1 100 2],
                            total_wt = 2\<rparr>)],
      stdout = []\<rparr>"


section \<open>Properties\<close>

subsection \<open>Auxiliary facts about strings and paths\<close>

lemma and_then_Inr [simp]: "and_then (Inr x) f = f x"
  by (simp add: and_then_def)

lemma and_then_Inl [simp]: "and_then (Inl e) f = Inl e"
  by (simp add: and_then_def)

lemma and_then_assoc: "and_then (and_then m f) g = and_then m (\<lambda>x. and_then (f x) g)"
  by (cases m) simp_all

lemma format_from_plain:
  "brace_free s \<Longrightarrow>
     format_from u arg (s @ t) = and_then (format_from u arg t) (\<lambda>x. Inr (s @ x))"
proof (induction s)
  case Nil
  show ?case by (cases "format_from u arg t") simp_all
next
  case (Cons c s)
  then have c: "c \<noteq> CHR ''{''" "c \<noteq> CHR ''}''" and s: "brace_free s"
    by (auto simp: brace_free_def)
  show ?case
  proof (cases "s @ t")
    case Nil
    then show ?thesis using c by simp
  next
    case (Cons d rest)
    have "format_from u arg ((c # s) @ t)
            = and_then (format_from u arg (s @ t)) (\<lambda>x. Inr (c # x))"
      using c Cons by simp
    also have "\<dots> = and_then (format_from u arg t) (\<lambda>x. Inr ((c # s) @ x))"
      using Cons.IH [OF s] by (simp add: and_then_assoc)
    finally show ?thesis .
  qed
qed

lemma format_from_plain_only: "brace_free s \<Longrightarrow> format_from u arg s = Inr s"
  using format_from_plain [of s u arg "[]"] by simp

lemma str_format_hole:
  assumes "brace_free s" "brace_free t"
  shows "str_format (s @ ''{}'' @ t) arg = Inr (s @ arg @ t)"
proof -
  have "format_from False arg (''{}'' @ t) = Inr (arg @ t)"
    using format_from_plain_only [OF assms(2), of True arg]
    by (cases t) simp_all
  then show ?thesis
    unfolding str_format_def using format_from_plain [OF assms(1), of False arg "''{}'' @ t"]
    by simp
qed

lemma path_join_rel:
  "\<not> startswith b ''/'' \<Longrightarrow> path_join a b = (if a = [] \<or> endswith a ''/'' then a else a @ ''/'') @ b"
  by (simp add: path_join_def)

lemma takeWhile_rev_all:
  "c \<notin> set n \<Longrightarrow> takeWhile (\<lambda>x. x \<noteq> c) (rev n) = rev n"
  by (rule takeWhile_eq_all_conv[THEN iffD2]) auto

lemma basename_plain: "CHR ''/'' \<notin> set n \<Longrightarrow> basename n = n"
  unfolding basename_def by (simp add: takeWhile_rev_all)

lemma basename_append:
  "CHR ''/'' \<notin> set n \<Longrightarrow> basename (p @ ''/'' @ n) = n"
  unfolding basename_def
  by (simp add: takeWhile_tail takeWhile_rev_all)

lemma basename_after_slash:
  assumes "CHR ''/'' \<notin> set n" "endswith p ''/''"
  shows "basename (p @ n) = n"
proof -
  from assms(2) obtain q where "p = q @ ''/''"
    by (auto simp: endswith_def suffix_def)
  then show ?thesis using basename_append [OF assms(1), of q] by simp
qed

lemma py_slice_strip:
  "b \<noteq> [] \<Longrightarrow> py_slice (a @ r @ b) (int (length a)) (- int (length b)) = r"
  by (auto simp: py_slice_def slice_bound_def)


lemma startswith_append [simp]: "startswith (p @ s) p"
  by (simp add: startswith_def)

lemma endswith_append [simp]: "endswith (p @ s) s"
  by (simp add: endswith_def suffix_def)

subsection \<open>Region identifiers and file names\<close>

text \<open>
  C9. A region store of region \<open>r\<close> is written under the name that the pattern
  \<^verbatim>\<open>feats_{}.h5\<close> in the output directory gives for \<open>r\<close>; the pattern of the featurize
  command matches that name, and both the featurize command (\<^verbatim>\<open>basename[6:-3]\<close>) and
  the weight-counts command (prefix and suffix stripped) recover exactly \<open>r\<close> from
  it. A region identifier is a code without a path separator, and the directory
  name has no braces.
\<close>

theorem region_name_roundtrip:
  assumes "CHR ''/'' \<notin> set r" and "brace_free d"
  shows "str_format (path_join d ''feats_{}.h5'') r
           = Inr (path_join d (''feats_'' @ r @ ''.h5''))
       \<and> basename (path_join d (''feats_'' @ r @ ''.h5'')) = ''feats_'' @ r @ ''.h5''
       \<and> matches_feats (''feats_'' @ r @ ''.h5'')
       \<and> region_name_of (path_join d (''feats_'' @ r @ ''.h5'')) = r
       \<and> weight_counts_region (''feats_'' @ r @ ''.h5'') = Some r"
proof -
  let ?n = "''feats_'' @ r @ ''.h5''"
  let ?pre = "if d = [] \<or> endswith d ''/'' then d else d @ ''/''"
  have pre: "brace_free ?pre"
    using assms(2) by (simp add: brace_free_def)
  have j1: "path_join d ''feats_{}.h5'' = ?pre @ ''feats_'' @ ''{}'' @ ''.h5''"
    by (simp add: path_join_def startswith_def)
  have j2: "path_join d ?n = ?pre @ ?n"
    by (simp add: path_join_def startswith_def)
  have "brace_free (?pre @ ''feats_'')"
    using pre by (simp add: brace_free_def)
  moreover have "brace_free ''.h5''"
    by (simp add: brace_free_def)
  ultimately have "str_format ((?pre @ ''feats_'') @ ''{}'' @ ''.h5'') r
                     = Inr ((?pre @ ''feats_'') @ r @ ''.h5'')"
    by (rule str_format_hole)
  then have fmt: "str_format (path_join d ''feats_{}.h5'') r = Inr (path_join d ?n)"
    unfolding j1 j2 by simp
  have n: "CHR ''/'' \<notin> set ?n"
    using assms(1) by simp
  have base: "basename (path_join d ?n) = ?n"
  proof (cases "d = []")
    case True
    then show ?thesis using basename_plain [OF n] unfolding j2 by simp
  next
    case False
    show ?thesis
    proof (cases "endswith d ''/''")
      case True
      then show ?thesis
        using basename_after_slash [OF n True] False unfolding j2 by simp
    next
      case no: False
      then show ?thesis
        using basename_append [OF n, of d] False unfolding j2 by simp
    qed
  qed
  have sl: "py_slice ?n 6 (- 3) = r"
    using py_slice_strip [of "''.h5''" "''feats_''" r] by simp
  have st: "startswith ?n ''feats_''"
    by (simp add: startswith_def)
  have en: "endswith ?n ''.h5''"
    using endswith_append [of "''feats_'' @ r" "''.h5''"] by simp
  have m: "matches_feats ?n"
    using st en by (simp add: matches_feats_def)
  have wc: "weight_counts_region ?n = Some r"
    using sl st en by (simp add: weight_counts_region_def)
  show ?thesis
    using fmt base m wc sl unfolding region_name_of_def by simp
qed

theorem region_name_roundtrip_witness:
  "CHR ''/'' \<notin> set ''0100100'' \<and> brace_free ''out''
   \<and> str_format (path_join ''out'' ''feats_{}.h5'') ''0100100''
        = Inr ''out/feats_0100100.h5''
   \<and> region_name_of ''out/feats_0100100.h5'' = ''0100100''
   \<and> weight_counts_region ''feats_0100100.h5'' = Some ''0100100''"
  using region_name_roundtrip [of "''0100100''" "''out''"]
  by (simp add: brace_free_def path_join_def startswith_def endswith_def suffix_to_prefix)

subsection \<open>The featurize command\<close>

lemma and_then_eq_Inr:
  "and_then m f = Inr y \<longleftrightarrow> (\<exists>x. m = Inr x \<and> f x = Inr y)"
  by (cases m) simp_all

lemma read_after_write [simp]: "read_file (write_file w p f) p = Inr f"
  by (simp add: read_file_def write_file_def update_conv')

lemma np_load_savez [simp]: "np_load (savez w p entries) (npz_path p) = Inr entries"
  by (simp add: np_load_def savez_def)

lemma unpack3:
  "(case t of [a, b, c] \<Rightarrow> Inr (g a b c) | _ \<Rightarrow> Inl ValueError) = Inr y
     \<longleftrightarrow> (\<exists>a b c. t = [a, b, c] \<and> y = g a b c)"
  by (auto split: list.splits)

lemma unpack6:
  "(case t of [a, b, c, d, e, f] \<Rightarrow> Inr (g a b c d e f) | _ \<Rightarrow> Inl ValueError) = Inr y
     \<longleftrightarrow> (\<exists>a b c d e f. t = [a, b, c, d, e, f] \<and> y = g a b c d e f)"
  by (auto split: list.splits)

lemma do_featurize_Inr:
  assumes "do_featurize ge args w = Inr w'"
  shows "\<exists>st fs t. load_stats w (path_join (f_dir args) ''stats.h5'') = Inr st
           \<and> glob_feats w (f_dir args) = Inr fs
           \<and> ge (featurize_kwargs args fs st) w = Inr t
           \<and> (if skip_rbf args
               then \<exists>a b c. t = [a, b, c]
                      \<and> w' = savez w (featurize_outfile args)
                          [(''emb_lin'', a), (''region_weights'', b), (''feature_names'', c),
                           (''region_names'', str_array (map region_name_of fs)),
                           (''subset_queries'', subset_queries_array (subsets args))]
               else \<exists>a b c d e f. t = [a, b, c, d, e, f]
                      \<and> w' = savez w (featurize_outfile args)
                          [(''emb_lin'', a), (''emb_rff'', b), (''region_weights'', c),
                           (''freqs'', d), (''bandwidth'', e), (''feature_names'', f),
                           (''region_names'', str_array (map region_name_of fs)),
                           (''subset_queries'', subset_queries_array (subsets args))])"
proof -
  from assms obtain st where st: "load_stats w (path_join (f_dir args) ''stats.h5'') = Inr st"
    unfolding do_featurize_def Let_def and_then_eq_Inr by blast
  from assms st obtain fs where fs: "glob_feats w (f_dir args) = Inr fs"
    unfolding do_featurize_def Let_def by (auto simp: and_then_eq_Inr)
  show ?thesis
  proof (cases "skip_rbf args")
    case True
    with assms st fs obtain t where t: "ge (featurize_kwargs args fs st) w = Inr t"
      and u: "(case t of [a, b, c] \<Rightarrow>
                 Inr (savez w (featurize_outfile args)
                        [(''emb_lin'', a), (''region_weights'', b), (''feature_names'', c),
                         (''region_names'', str_array (map region_name_of fs)),
                            (''subset_queries'', subset_queries_array (subsets args))])
               | _ \<Rightarrow> Inl ValueError) = Inr w'"
      unfolding do_featurize_def Let_def by (auto simp: and_then_eq_Inr)
    from u obtain a b c where "t = [a, b, c]"
      and "w' = savez w (featurize_outfile args)
                  [(''emb_lin'', a), (''region_weights'', b), (''feature_names'', c),
                   (''region_names'', str_array (map region_name_of fs)),
                      (''subset_queries'', subset_queries_array (subsets args))]"
      unfolding unpack3 by blast
    with st fs t True show ?thesis by simp
  next
    case False
    with assms st fs obtain t where t: "ge (featurize_kwargs args fs st) w = Inr t"
      and u: "(case t of [a, b, c, d, e, f] \<Rightarrow>
                 Inr (savez w (featurize_outfile args)
                        [(''emb_lin'', a), (''emb_rff'', b), (''region_weights'', c),
                          (''freqs'', d), (''bandwidth'', e), (''feature_names'', f),
                         (''region_names'', str_array (map region_name_of fs)),
                            (''subset_queries'', subset_queries_array (subsets args))])
               | _ \<Rightarrow> Inl ValueError) = Inr w'"
      unfolding do_featurize_def Let_def by (auto simp: and_then_eq_Inr)
    from u obtain a b c d e f where "t = [a, b, c, d, e, f]"
      and "w' = savez w (featurize_outfile args)
                  [(''emb_lin'', a), (''emb_rff'', b), (''region_weights'', c),
                    (''freqs'', d), (''bandwidth'', e), (''feature_names'', f),
                   (''region_names'', str_array (map region_name_of fs)),
                      (''subset_queries'', subset_queries_array (subsets args))]"
      unfolding unpack6 by blast
    with st fs t False show ?thesis by simp
  qed
qed


lemma files_savez:
  "files (savez w p entries) = AList.update (abspath (cwd w) (npz_path p)) (Npz entries) (files w)"
  by (simp add: savez_def write_file_def)

text \<open>
  C3. When featurization runs with \<open>skip_rbf\<close>, the archive it writes holds exactly
  the linear embedding, the region weights and the feature names that
  \<^verbatim>\<open>get_embeddings\<close> returned, the region names and the subset queries: there is no
  entry for the Fourier embedding, the frequencies or the bandwidth.
\<close>

theorem skip_rbf_archive:
  assumes "skip_rbf args" and "do_featurize ge args w = Inr w'"
  shows "\<exists>emb_lin region_weights feature_names fs st.
           glob_feats w (f_dir args) = Inr fs
         \<and> ge (featurize_kwargs args fs st) w = Inr [emb_lin, region_weights, feature_names]
         \<and> np_load w' (npz_path (featurize_outfile args))
             = Inr [(''emb_lin'', emb_lin), (''region_weights'', region_weights),
                    (''feature_names'', feature_names),
                    (''region_names'', str_array (map region_name_of fs)),
                    (''subset_queries'', subset_queries_array (subsets args))]"
  using do_featurize_Inr [OF assms(2)] assms(1) by fastforce

theorem skip_rbf_archive_witness:
  "skip_rbf linear_args
   \<and> (\<exists>w'. do_featurize
               (constant_embeddings [num_matrix 1 [[0]], num_array [0], str_array [''AGEP'']])
               linear_args sorted_world = Inr w'
          \<and> np_load w' ''d/embeddings.npz''
               = Inr [(''emb_lin'', num_matrix 1 [[0]]), (''region_weights'', num_array [0]),
                      (''feature_names'', str_array [''AGEP'']),
                      (''region_names'', str_array [''0100100'']),
                      (''subset_queries'', scalar_array PyNone)])"
proof -
  let ?ge = "constant_embeddings [num_matrix 1 [[0]], num_array [0], str_array [''AGEP'']]"
  have s: "skip_rbf linear_args"
    by (simp add: linear_args_def)
  have g: "glob_feats sorted_world (f_dir linear_args) = Inr [''d/feats_0100100.h5'']"
    by (simp add: linear_args_def sorted_world_def glob_feats_def listdir_def has_magic_def
          matches_feats_def dirname_def basename_def abspath_def normpath_def path_join_def
          startswith_def endswith_def suffix_to_prefix norm_comp_def Let_def)
  have l: "load_stats sorted_world (path_join (f_dir linear_args) ''stats.h5'') = Inr example_stats"
    by (simp add: linear_args_def sorted_world_def load_stats_def read_file_def
          abspath_def normpath_def path_join_def startswith_def endswith_def suffix_to_prefix
          norm_comp_def Let_def)
  have ok: "do_featurize ?ge linear_args sorted_world
            = Inr (savez sorted_world (featurize_outfile linear_args)
                    [(''emb_lin'', num_matrix 1 [[0]]), (''region_weights'', num_array [0]),
                     (''feature_names'', str_array [''AGEP'']),
                     (''region_names'', str_array (map region_name_of [''d/feats_0100100.h5''])),
                     (''subset_queries'', subset_queries_array (subsets linear_args))])"
    unfolding do_featurize_def Let_def l g using s by (simp add: constant_embeddings_def)
  have p: "npz_path (featurize_outfile linear_args) = ''d/embeddings.npz''"
    by (simp add: npz_path_def featurize_outfile_def linear_args_def path_join_def
          startswith_def endswith_def suffix_to_prefix)
  have r: "region_name_of ''d/feats_0100100.h5'' = ''0100100''"
    by (simp add: region_name_of_def basename_def py_slice_def slice_bound_def)
  have q: "subset_queries_array (subsets linear_args) = scalar_array PyNone"
    by (simp add: subset_queries_array_def linear_args_def)
  from skip_rbf_archive [OF s ok] g show ?thesis
    using s ok p r q by (auto simp: constant_embeddings_def)
qed



subsection \<open>The export command\<close>

lemma pd_DataFrame_Inr:
  "pd_DataFrame a = Inr df \<longleftrightarrow>
     (\<exists>n m. frame_dims a = Some (n, m)
        \<and> df = \<lparr>df_index = range_labels n, df_columns = range_labels m,
                 df_values = rows_of n m (cells a)\<rparr>)"
  by (auto simp: pd_DataFrame_def frame_dims_def split: list.splits)

lemma set_index_Inr:
  "set_index df a = Inr df' \<longleftrightarrow>
     ((\<exists>n. shape a = [n]) \<and> length (cells a) = length (df_index df)
        \<and> df' = df\<lparr>df_index := cells a\<rparr>)"
  by (auto simp: set_index_def split: list.splits)

lemma set_columns_Inr:
  "set_columns df a = Inr df' \<longleftrightarrow>
     ((\<exists>n. shape a = [n]) \<and> length (cells a) = length (df_columns df)
        \<and> df' = df\<lparr>df_columns := cells a\<rparr>)"
  by (auto simp: set_columns_def split: list.splits)

lemma npz_get_Inr: "npz_get data k = Inr a \<longleftrightarrow> map_of data k = Some a"
  by (simp add: npz_get_def split: option.splits)

lemma length_range_labels [simp]: "length (range_labels n) = n"
  by (simp add: range_labels_def)

lemma length_rows_of [simp]: "length (rows_of n m cs) = n"
  by (simp add: rows_of_def)

lemma rows_of_width:
  assumes "length cs = n * m" and "r \<in> set (rows_of n m cs)"
  shows "length r = m"
proof -
  from assms(2) obtain i where i: "i < n" and r: "r = take m (drop (i * m) cs)"
    by (auto simp: rows_of_def)
  have "i * m + m \<le> n * m"
    using i by (metis Suc_leI mult_Suc mult_le_mono1 add.commute)
  then show ?thesis using assms(1) r by simp
qed

lemma export_linear_Inr:
  assumes "export_linear pat data w = Inr w1"
  shows "\<exists>path t emb names feats.
           str_format pat ''linear'' = Inr path
         \<and> map_of data ''emb_lin'' = Some emb
         \<and> map_of data ''region_names'' = Some names
         \<and> map_of data ''feature_names'' = Some feats
         \<and> region_table t emb names (cells feats)
         \<and> w1 = print_line (write_file w path (Csv t)) (''Linear embeddings saved in '' @ path)"
proof -
  from assms obtain path emb df names df1 feats df2 where
    path: "str_format pat ''linear'' = Inr path"
    and emb: "map_of data ''emb_lin'' = Some emb" and df: "pd_DataFrame emb = Inr df"
    and names: "map_of data ''region_names'' = Some names" and df1: "set_index df names = Inr df1"
    and feats: "map_of data ''feature_names'' = Some feats" and df2: "set_columns df1 feats = Inr df2"
    and w1: "w1 = print_line (to_csv w df2 path ''region'') (''Linear embeddings saved in '' @ path)"
    unfolding export_linear_def and_then_eq_Inr npz_get_Inr by auto
  from df obtain n m where dims: "frame_dims emb = Some (n, m)"
    and dfv: "df = \<lparr>df_index = range_labels n, df_columns = range_labels m,
                     df_values = rows_of n m (cells emb)\<rparr>"
    unfolding pd_DataFrame_Inr by blast
  from df1 dfv have n: "length (cells names) = n" and df1v: "df1 = df\<lparr>df_index := cells names\<rparr>"
    unfolding set_index_Inr by auto
  from df2 dfv df1v have m: "length (cells feats) = m"
    and df2v: "df2 = df1\<lparr>df_columns := cells feats\<rparr>"
    unfolding set_columns_Inr by auto
  let ?t = "\<lparr>csv_index_label = ''region'', csv_header = df_columns df2,
             csv_rows = zip (df_index df2) (df_values df2)\<rparr>"
  have "region_table ?t emb names (cells feats)"
    using dims n m by (simp add: region_table_def df2v df1v dfv)
  moreover have "w1 = print_line (write_file w path (Csv ?t)) (''Linear embeddings saved in '' @ path)"
    using w1 by (simp add: to_csv_def)
  ultimately show ?thesis using path emb names feats by blast
qed

lemma export_rff_Inr:
  assumes "export_rff pat data w = Inr w2"
  shows "\<exists>path t emb names k.
           str_format pat ''rff'' = Inr path
         \<and> map_of data ''emb_rff'' = Some emb
         \<and> map_of data ''region_names'' = Some names
         \<and> region_table t emb names (range_labels k)
         \<and> w2 = print_line (write_file w path (Csv t)) (''Fourier embeddings saved in '' @ path)"
proof -
  from assms obtain path emb df names df1 where
    path: "str_format pat ''rff'' = Inr path"
    and emb: "map_of data ''emb_rff'' = Some emb" and df: "pd_DataFrame emb = Inr df"
    and names: "map_of data ''region_names'' = Some names" and df1: "set_index df names = Inr df1"
    and w2: "w2 = print_line (to_csv w df1 path ''region'') (''Fourier embeddings saved in '' @ path)"
    unfolding export_rff_def and_then_eq_Inr npz_get_Inr by auto
  from df obtain n m where dims: "frame_dims emb = Some (n, m)"
    and dfv: "df = \<lparr>df_index = range_labels n, df_columns = range_labels m,
                     df_values = rows_of n m (cells emb)\<rparr>"
    unfolding pd_DataFrame_Inr by blast
  from df1 dfv have n: "length (cells names) = n" and df1v: "df1 = df\<lparr>df_index := cells names\<rparr>"
    unfolding set_index_Inr by auto
  let ?t = "\<lparr>csv_index_label = ''region'', csv_header = df_columns df1,
             csv_rows = zip (df_index df1) (df_values df1)\<rparr>"
  have "region_table ?t emb names (range_labels m)"
    using dims n by (simp add: region_table_def df1v dfv)
  moreover have "w2 = print_line (write_file w path (Csv ?t)) (''Fourier embeddings saved in '' @ path)"
    using w2 by (simp add: to_csv_def)
  ultimately show ?thesis using path emb names by blast
qed

lemma region_table_width:
  assumes "region_table t emb names header" and "wf_ndarray emb" and "r \<in> set (csv_rows t)"
  shows "length (snd r) = length header"
proof -
  from assms(1) obtain n m where dims: "frame_dims emb = Some (n, m)"
    and m: "m = length header" and rows: "map snd (csv_rows t) = rows_of n m (cells emb)"
    by (auto simp: region_table_def split: option.splits)
  from dims assms(2) have "length (cells emb) = n * m"
    by (auto simp: frame_dims_def wf_ndarray_def split: list.splits)
  moreover from assms(3) rows have "snd r \<in> set (rows_of n m (cells emb))"
    by (metis image_eqI set_map)
  ultimately show ?thesis using rows_of_width m by blast
qed

lemma do_export_ok:
  assumes "do_export args w = (w', None)"
  shows "\<exists>nm data w1.
           export_out_name args w = Inr nm
         \<and> np_load w (export_infile args) = Inr data
         \<and> export_linear (path_join (e_dir args) (nm @ ''_{}.csv'')) data w = Inr w1
         \<and> (case map_of data ''emb_rff'' of
               None \<Rightarrow> w' = w1
             | Some e \<Rightarrow> export_rff (path_join (e_dir args) (nm @ ''_{}.csv'')) data w1 = Inr w')"
proof -
  have keys: "\<And>d. (''emb_rff'' \<in> fst ` set d) = (map_of d ''emb_rff'' \<noteq> None)"
    by (simp add: map_of_eq_None_iff)
  show ?thesis
    using assms unfolding do_export_def export_frames_def Let_def keys
    by (auto split: sum.splits if_splits option.splits)
qed

lemma path_join_under:
  "path_join d (nm @ CHR ''_'' # x)
     = (if startswith nm ''/'' then nm
        else (if d = [] \<or> endswith d ''/'' then d else d @ ''/'') @ nm) @ CHR ''_'' # x"
  by (cases nm) (auto simp: path_join_def startswith_def)

lemma format_out_pattern:
  assumes "brace_free d" and "brace_free nm"
  shows "str_format (path_join d (nm @ ''_{}.csv'')) arg
           = Inr (path_join d (nm @ ''_'' @ arg @ ''.csv''))"
proof -
  let ?P = "if startswith nm ''/'' then nm
            else (if d = [] \<or> endswith d ''/'' then d else d @ ''/'') @ nm"
  have "brace_free (?P @ ''_'')"
    using assms by (simp add: brace_free_def)
  moreover have "brace_free ''.csv''"
    by (simp add: brace_free_def)
  ultimately have "str_format ((?P @ ''_'') @ ''{}'' @ ''.csv'') arg
                     = Inr ((?P @ ''_'') @ arg @ ''.csv'')"
    by (rule str_format_hole)
  moreover have "path_join d (nm @ ''_{}.csv'') = (?P @ ''_'') @ ''{}'' @ ''.csv''"
    using path_join_under [of d nm "''{}.csv''"] by simp
  moreover have "path_join d (nm @ ''_'' @ arg @ ''.csv'') = (?P @ ''_'') @ arg @ ''.csv''"
    using path_join_under [of d nm "arg @ ''.csv''"] by simp
  ultimately show ?thesis by simp
qed

lemma export_linear_ok:
  assumes "embedding_archive data" and "str_format pat ''linear'' = Inr p"
  shows "\<exists>t. export_linear pat data w
               = Inr (print_line (write_file w p (Csv t)) (''Linear embeddings saved in '' @ p))"
proof -
  from assms(1) obtain emb names feats where
    e: "map_of data ''emb_lin'' = Some emb" and nm: "map_of data ''region_names'' = Some names"
    and f: "map_of data ''feature_names'' = Some feats"
    and se: "shape emb = [length (cells names), length (cells feats)]"
    and sn: "shape names = [length (cells names)]"
    and sf: "shape feats = [length (cells feats)]"
    unfolding embedding_archive_def by (auto split: option.splits)
  define msg where "msg = ''Linear embeddings saved in '' @ p"
  have "export_linear pat data w
          = Inr (print_line
                   (write_file w p
                      (Csv \<lparr>csv_index_label = ''region'', csv_header = cells feats,
                             csv_rows = zip (cells names)
                               (rows_of (length (cells names)) (length (cells feats))
                                  (cells emb))\<rparr>)) msg)"
    unfolding export_linear_def assms(2)
    by (simp add: npz_get_def e nm f pd_DataFrame_def se set_index_def sn set_columns_def sf
          to_csv_def msg_def)
  then show ?thesis unfolding msg_def by blast
qed

lemma export_rff_ok:
  assumes "embedding_archive data" and "map_of data ''emb_rff'' = Some e"
    and "str_format pat ''rff'' = Inr p"
  shows "\<exists>t. export_rff pat data w
               = Inr (print_line (write_file w p (Csv t)) (''Fourier embeddings saved in '' @ p))"
proof -
  from assms(1,2) obtain names where
    nm: "map_of data ''region_names'' = Some names"
    and se: "shape e = [length (cells names), shape e ! 1]"
    and sn: "shape names = [length (cells names)]"
    unfolding embedding_archive_def by (auto split: option.splits)
  define msg where "msg = ''Fourier embeddings saved in '' @ p"
  define k where "k = shape e ! 1"
  have se': "shape e = [length (cells names), k]"
    using se by (simp add: k_def)
  have "export_rff pat data w
          = Inr (print_line
                   (write_file w p
                      (Csv \<lparr>csv_index_label = ''region'', csv_header = range_labels k,
                             csv_rows = zip (cells names)
                               (rows_of (length (cells names)) k (cells e))\<rparr>)) msg)"
    unfolding export_rff_def assms(3)
    by (simp add: npz_get_def assms(2) nm pd_DataFrame_def se' set_index_def sn to_csv_def
          msg_def)
  then show ?thesis unfolding msg_def by blast
qed

lemma do_export_embedding_archive:
  assumes load: "np_load w (export_infile args) = Inr data"
    and arch: "embedding_archive data"
    and name: "export_out_name args w = Inr nm"
    and d: "brace_free (e_dir args)" and n: "brace_free nm"
  shows "\<exists>t1 w1.
           w1 = print_line
                  (write_file w (path_join (e_dir args) (nm @ ''_linear.csv'')) (Csv t1))
                  (''Linear embeddings saved in ''
                     @ path_join (e_dir args) (nm @ ''_linear.csv''))
         \<and> (if ''emb_rff'' \<in> fst ` set data
             then \<exists>t2. do_export args w
                         = (print_line
                              (write_file w1 (path_join (e_dir args) (nm @ ''_rff.csv''))
                                 (Csv t2))
                              (''Fourier embeddings saved in ''
                                 @ path_join (e_dir args) (nm @ ''_rff.csv'')), None)
             else do_export args w = (w1, None))"
proof -
  define pat where "pat = path_join (e_dir args) (nm @ ''_{}.csv'')"
  define p1 where "p1 = path_join (e_dir args) (nm @ ''_linear.csv'')"
  define p2 where "p2 = path_join (e_dir args) (nm @ ''_rff.csv'')"
  define m1 where "m1 = ''Linear embeddings saved in '' @ p1"
  define m2 where "m2 = ''Fourier embeddings saved in '' @ p2"
  have f1: "str_format pat ''linear'' = Inr p1"
    unfolding pat_def p1_def using format_out_pattern [OF d n, of "''linear''"] by simp
  have f2: "str_format pat ''rff'' = Inr p2"
    unfolding pat_def p2_def using format_out_pattern [OF d n, of "''rff''"] by simp
  from export_linear_ok [OF arch f1, of w] obtain t1 where
    lin: "export_linear pat data w = Inr (print_line (write_file w p1 (Csv t1)) m1)"
    unfolding m1_def by blast
  define w1 where "w1 = print_line (write_file w p1 (Csv t1)) m1"
  have run: "do_export args w = export_frames pat data w"
    unfolding do_export_def name load Let_def pat_def by simp
  have "if ''emb_rff'' \<in> fst ` set data
        then \<exists>t2. do_export args w = (print_line (write_file w1 p2 (Csv t2)) m2, None)
        else do_export args w = (w1, None)"
  proof (cases "''emb_rff'' \<in> fst ` set data")
    case True
    then obtain e where "map_of data ''emb_rff'' = Some e"
      by (metis map_of_eq_None_iff not_Some_eq)
    from export_rff_ok [OF arch this f2, of w1] obtain t2 where
      rff: "export_rff pat data w1 = Inr (print_line (write_file w1 p2 (Csv t2)) m2)"
      unfolding m2_def by blast
    have "do_export args w = (print_line (write_file w1 p2 (Csv t2)) m2, None)"
      unfolding run export_frames_def lin w1_def [symmetric] using True rff by simp
    with True show ?thesis by auto
  next
    case False
    have "do_export args w = (w1, None)"
      unfolding run export_frames_def lin w1_def [symmetric] using False by simp
    with False show ?thesis by simp
  qed
  then show ?thesis
    unfolding w1_def m1_def m2_def p1_def p2_def by blast
qed

lemmas path_eval = abspath_def normpath_def path_join_def startswith_def endswith_def
  suffix_to_prefix norm_comp_def Let_def

lemma default_out_name:
  "export_out_name default_export_args (archive_world data) = Inr ''embeddings''"
  by (simp add: export_out_name_def default_export_args_def archive_world_def export_infile_def
        relpath_def py_slice_def slice_bound_def path_eval)

lemma default_load:
  "np_load (archive_world data) (export_infile default_export_args) = Inr data"
  by (simp add: np_load_def read_file_def default_export_args_def archive_world_def
        export_infile_def path_eval)

lemma fourier_archive_entries:
  "map_of fourier_archive ''emb_lin'' = Some (num_matrix 1 [[1], [2]])"
  "map_of fourier_archive ''emb_rff'' = Some (num_matrix 2 [[1, 0], [0, 1]])"
  "map_of fourier_archive ''region_names'' = Some (str_array [''A'', ''B''])"
  "map_of fourier_archive ''feature_names'' = Some (str_array [''AGEP''])"
  by (simp_all add: fourier_archive_def)

lemma linear_archive_entries:
  "map_of linear_archive ''emb_lin'' = Some (num_matrix 2 [[1, 2], [3, 4], [5, 6]])"
  "map_of linear_archive ''emb_rff'' = None"
  "map_of linear_archive ''region_names'' = Some (str_array [''0100100'', ''0100200'', ''0100300''])"
  "map_of linear_archive ''feature_names'' = Some (str_array [''AGEP'', ''PINCP''])"
  by (simp_all add: linear_archive_def)

lemma example_archives:
  "embedding_archive fourier_archive" "embedding_archive linear_archive"
  unfolding embedding_archive_def fourier_archive_entries linear_archive_entries
  by (simp_all add: num_matrix_def str_array_def)

lemma default_braces:
  "brace_free (e_dir default_export_args)" "brace_free ''embeddings''"
  by (simp_all add: brace_free_def default_export_args_def)

text \<open>
  C8. After a successful export, the linear table has the region names of the
  archive as its index column, one row per region and one column per feature name,
  labelled by the feature names of the archive in order, and its rows are the rows
  of the linear embedding. When the archive has a Fourier embedding, its table has
  the same index and one column per embedding dimension.
\<close>

theorem export_table_shape:
  assumes "do_export args w = (w', None)"
  shows "\<exists>data w1 p1 t1 emb names feats.
           np_load w (export_infile args) = Inr data
         \<and> map_of data ''emb_lin'' = Some emb
         \<and> map_of data ''region_names'' = Some names
         \<and> map_of data ''feature_names'' = Some feats
         \<and> w1 = print_line (write_file w p1 (Csv t1)) (''Linear embeddings saved in '' @ p1)
         \<and> region_table t1 emb names (cells feats)
         \<and> (wf_ndarray emb \<longrightarrow> (\<forall>r \<in> set (csv_rows t1). length (snd r) = length (cells feats)))
         \<and> (case map_of data ''emb_rff'' of
               None \<Rightarrow> w' = w1
             | Some e \<Rightarrow>
                 \<exists>p2 t2 k.
                   w' = print_line (write_file w1 p2 (Csv t2))
                          (''Fourier embeddings saved in '' @ p2)
                 \<and> region_table t2 e names (range_labels k)
                 \<and> (wf_ndarray e \<longrightarrow> (\<forall>r \<in> set (csv_rows t2). length (snd r) = k)))"
proof -
  from do_export_ok [OF assms] obtain nm data w1 where
    load: "np_load w (export_infile args) = Inr data"
    and lin: "export_linear (path_join (e_dir args) (nm @ ''_{}.csv'')) data w = Inr w1"
    and rest: "case map_of data ''emb_rff'' of
                 None \<Rightarrow> w' = w1
               | Some e \<Rightarrow> export_rff (path_join (e_dir args) (nm @ ''_{}.csv'')) data w1 = Inr w'"
    by blast
  from export_linear_Inr [OF lin] obtain p1 t1 emb names feats where
    emb: "map_of data ''emb_lin'' = Some emb"
    and names: "map_of data ''region_names'' = Some names"
    and feats: "map_of data ''feature_names'' = Some feats"
    and t1: "region_table t1 emb names (cells feats)"
    and w1: "w1 = print_line (write_file w p1 (Csv t1)) (''Linear embeddings saved in '' @ p1)"
    by blast
  have width1: "wf_ndarray emb \<longrightarrow> (\<forall>r \<in> set (csv_rows t1). length (snd r) = length (cells feats))"
    using region_table_width [OF t1] by blast
  have rff: "case map_of data ''emb_rff'' of
               None \<Rightarrow> w' = w1
             | Some e \<Rightarrow>
                 \<exists>p2 t2 k.
                   w' = print_line (write_file w1 p2 (Csv t2))
                          (''Fourier embeddings saved in '' @ p2)
                 \<and> region_table t2 e names (range_labels k)
                 \<and> (wf_ndarray e \<longrightarrow> (\<forall>r \<in> set (csv_rows t2). length (snd r) = k))"
  proof (cases "map_of data ''emb_rff''")
    case None
    with rest show ?thesis by simp
  next
    case (Some e)
    with rest have "export_rff (path_join (e_dir args) (nm @ ''_{}.csv'')) data w1 = Inr w'"
      by simp
    from export_rff_Inr [OF this] Some names obtain p2 t2 k where
      t2: "region_table t2 e names (range_labels k)"
      and w': "w' = print_line (write_file w1 p2 (Csv t2)) (''Fourier embeddings saved in '' @ p2)"
      by auto
    have "wf_ndarray e \<longrightarrow> (\<forall>r \<in> set (csv_rows t2). length (snd r) = k)"
      using region_table_width [OF t2] by auto
    with t2 w' Some show ?thesis by auto
  qed
  show ?thesis
    by (intro exI conjI) (rule load, rule emb, rule names, rule feats, rule w1, rule t1,
        rule width1, rule rff)
qed

theorem export_table_shape_witness:
  "\<exists>w' t1 t2 k.
      do_export default_export_args (archive_world fourier_archive) = (w', None)
    \<and> region_table t1 (num_matrix 1 [[1], [2]]) (str_array [''A'', ''B'']) [Str ''AGEP'']
    \<and> (\<forall>r \<in> set (csv_rows t1). length (snd r) = 1)
    \<and> region_table t2 (num_matrix 2 [[1, 0], [0, 1]]) (str_array [''A'', ''B''])
         (range_labels k)
    \<and> (\<forall>r \<in> set (csv_rows t2). length (snd r) = k)"
proof -
  have "''emb_rff'' \<in> fst ` set fourier_archive"
    by (simp add: fourier_archive_def)
  with do_export_embedding_archive
         [OF default_load example_archives(1) default_out_name default_braces]
  obtain w' where ok: "do_export default_export_args (archive_world fourier_archive) = (w', None)"
    by auto
  have wf: "wf_ndarray (num_matrix 1 [[1], [2]])" "wf_ndarray (num_matrix 2 [[1, 0], [0, 1]])"
    by (simp_all add: wf_ndarray_def num_matrix_def)
  from export_table_shape [OF ok] obtain t1 t2 k where
    "region_table t1 (num_matrix 1 [[1], [2]]) (str_array [''A'', ''B''])
       (cells (str_array [''AGEP'']))"
    "\<forall>r \<in> set (csv_rows t1). length (snd r) = length (cells (str_array [''AGEP'']))"
    "region_table t2 (num_matrix 2 [[1, 0], [0, 1]]) (str_array [''A'', ''B'']) (range_labels k)"
    "\<forall>r \<in> set (csv_rows t2). length (snd r) = k"
    unfolding default_load using wf by (auto simp: fourier_archive_entries)
  then show ?thesis using ok by (auto simp: str_array_def)
qed

text \<open>
  C10. For an embedding archive, the export writes the linear table and ends without
  an exception; it goes on to write the Fourier table exactly when the archive has
  an entry \<^verbatim>\<open>emb_rff\<close>. An archive written with \<open>skip_rbf\<close> has no such entry, so only
  the linear table is written. The directory and the base name of the tables have
  no braces.
\<close>

theorem export_writes:
  assumes "np_load w (export_infile args) = Inr data"
    and "embedding_archive data"
    and "export_out_name args w = Inr nm"
    and "brace_free (e_dir args)" and "brace_free nm"
  shows "\<exists>t1 w1.
           w1 = print_line
                  (write_file w (path_join (e_dir args) (nm @ ''_linear.csv'')) (Csv t1))
                  (''Linear embeddings saved in ''
                     @ path_join (e_dir args) (nm @ ''_linear.csv''))
         \<and> (if ''emb_rff'' \<in> fst ` set data
             then \<exists>t2. do_export args w
                         = (print_line
                              (write_file w1 (path_join (e_dir args) (nm @ ''_rff.csv''))
                                 (Csv t2))
                              (''Fourier embeddings saved in ''
                                 @ path_join (e_dir args) (nm @ ''_rff.csv'')), None)
             else do_export args w = (w1, None))"
  using assms by (rule do_export_embedding_archive)

theorem export_writes_witness:
  "embedding_archive linear_archive \<and> ''emb_rff'' \<notin> fst ` set linear_archive
   \<and> (\<exists>t1. do_export default_export_args (archive_world linear_archive)
              = (print_line
                   (write_file (archive_world linear_archive) ''d/embeddings_linear.csv'' (Csv t1))
                   ''Linear embeddings saved in d/embeddings_linear.csv'', None))"
proof -
  have no: "''emb_rff'' \<notin> fst ` set linear_archive"
    by (simp add: linear_archive_def)
  have p: "path_join (e_dir default_export_args) (''embeddings'' @ ''_linear.csv'')
             = ''d/embeddings_linear.csv''"
    by (simp add: default_export_args_def path_join_def startswith_def endswith_def
          suffix_to_prefix)
  from export_writes [OF default_load example_archives(2) default_out_name default_braces] no
  obtain t1 where "do_export default_export_args (archive_world linear_archive)
      = (print_line
           (write_file (archive_world linear_archive)
              (path_join (e_dir default_export_args) (''embeddings'' @ ''_linear.csv'')) (Csv t1))
           (''Linear embeddings saved in ''
              @ path_join (e_dir default_export_args) (''embeddings'' @ ''_linear.csv'')), None)"
    by auto
  then have "do_export default_export_args (archive_world linear_archive)
      = (print_line
           (write_file (archive_world linear_archive) ''d/embeddings_linear.csv'' (Csv t1))
           ''Linear embeddings saved in d/embeddings_linear.csv'', None)"
    unfolding p by simp
  with no example_archives(2) show ?thesis by blast
qed

subsection \<open>The sort phase\<close>

lemma accumulate_append: "accumulate (accumulate st a) b = accumulate st (a @ b)"
  by (simp add: accumulate_def fun_eq_iff Un_assoc add.assoc)

lemma accumulate_Nil [simp]: "accumulate st [] = st"
  by (simp add: accumulate_def)

lemma filter_transform_append:
  "filter_transform sch vo adj (a @ b) = filter_transform sch vo adj a @ filter_transform sch vo adj b"
  by (simp add: filter_transform_def Let_def)

lemma filter_transform_Nil [simp]: "filter_transform sch vo adj [] = []"
  by (simp add: filter_transform_def)

lemma fst_sort_step:
  "fst (sort_step sch vo so adj acc c) = accumulate (fst acc) (filter_transform sch vo adj c)"
  by (simp add: sort_step_def Let_def)

lemma fst_foldl_sort_step:
  "fst (foldl (sort_step sch vo so adj) acc cs)
     = accumulate (fst acc) (filter_transform sch vo adj (concat cs))"
  by (induction cs arbitrary: acc)
     (simp_all add: fst_sort_step accumulate_append filter_transform_append)

lemma sort_pass_stats:
  "fst (sort_pass sch vo so adj cs)
     = accumulate init_stats (filter_transform sch vo adj (concat cs))"
  by (simp add: sort_pass_def fst_foldl_sort_step)

lemma concat_chunks_of: "0 < n \<Longrightarrow> concat (chunks_of n xs) = xs"
proof (induction n xs rule: chunks_of.induct)
  case (1 k rows)
  show ?case
  proof (cases "rows = []")
    case True
    then show ?thesis by (subst chunks_of.simps) simp
  next
    case False
    with 1 have "concat (chunks_of k (drop k rows)) = drop k rows" by simp
    with False 1(2) show ?thesis by (subst chunks_of.simps) simp
  qed
qed

lemma concat_map_chunks_of: "0 < n \<Longrightarrow> concat (concat (map (chunks_of n) inputs)) = concat inputs"
  by (induction inputs) (simp_all add: concat_chunks_of)

text \<open>
  C2. The finalized statistics do not depend on how the rows are cut into chunks:
  two chunkings of the same row sequence give the same vocabularies, means and
  standard deviations, and so do any two positive chunk sizes on the same input
  files. Arithmetic is exact here, so the results are equal and not only close.
\<close>

theorem chunk_size_invariance:
  "(\<forall>cs1 cs2. concat cs1 = concat cs2 \<longrightarrow>
       finalize sch (fst (sort_pass sch vo so adj cs1))
         = finalize sch (fst (sort_pass sch vo so adj cs2)))
   \<and> (\<forall>n m inputs. 0 < n \<and> 0 < m \<longrightarrow>
         finalize sch (fst (sort_pass sch vo so adj (concat (map (chunks_of n) inputs))))
           = finalize sch (fst (sort_pass sch vo so adj (concat (map (chunks_of m) inputs)))))"
  by (simp add: sort_pass_stats concat_map_chunks_of)


theorem chunk_size_invariance_witness:
  "concat [take 2 example_rows, drop 2 example_rows] = concat [example_rows]
   \<and> finalize example_schema
        (fst (sort_pass example_schema True False True
                [take 2 example_rows, drop 2 example_rows]))
       = finalize example_schema
           (fst (sort_pass example_schema True False True [example_rows]))
   \<and> (0::nat) < 2 \<and> (0::nat) < 3
   \<and> finalize example_schema
        (fst (sort_pass example_schema True False True
                (concat (map (chunks_of 2) [example_rows]))))
       = finalize example_schema
           (fst (sort_pass example_schema True False True
                   (concat (map (chunks_of 3) [example_rows]))))"
proof -
  have c: "concat [take 2 example_rows, drop 2 example_rows] = concat [example_rows]"
    by simp
  note inv = chunk_size_invariance [of example_schema True False True]
  from inv c have a: "finalize example_schema
        (fst (sort_pass example_schema True False True
                [take 2 example_rows, drop 2 example_rows]))
       = finalize example_schema
           (fst (sort_pass example_schema True False True [example_rows]))"
    by blast
  have p: "(0::nat) < 2 \<and> (0::nat) < 3"
    by simp
  from inv p have b: "finalize example_schema
        (fst (sort_pass example_schema True False True
                (concat (map (chunks_of 2) [example_rows]))))
       = finalize example_schema
           (fst (sort_pass example_schema True False True
                   (concat (map (chunks_of 3) [example_rows]))))"
    by blast
  from c a p b show ?thesis by blast
qed

lemma extend_store_append:
  "extend_store (extend_store m a) b = extend_store m (a @ b)"
  by (cases m) (auto simp: extend_store_def)

lemma extend_store_Nil [simp]: "extend_store m [] = m"
  by (simp add: extend_store_def)

lemma map_of_append_store:
  assumes "sub \<noteq> []"
  shows "map_of (append_store ss g' sub) g
           = (if g = g' then extend_store (map_of ss g) sub else map_of ss g)"
proof (cases "map_of ss g'")
  case None
  then show ?thesis
    using assms by (auto simp: append_store_def extend_store_def map_add_def split: option.splits)
next
  case (Some s)
  then show ?thesis
    using assms by (auto simp: append_store_def extend_store_def update_conv')
qed

lemma map_of_foldl_append_store:
  assumes "distinct gs" and "\<And>x. x \<in> set gs \<Longrightarrow> F x \<noteq> []"
  shows "map_of (foldl (\<lambda>acc x. append_store acc x (F x)) ss gs) g
           = (if g \<in> set gs then extend_store (map_of ss g) (F g) else map_of ss g)"
  using assms
proof (induction gs arbitrary: ss)
  case Nil
  then show ?case by simp
next
  case (Cons a gs)
  have "map_of (foldl (\<lambda>acc x. append_store acc x (F x)) (append_store ss a (F a)) gs) g
          = (if g \<in> set gs then extend_store (map_of (append_store ss a (F a)) g) (F g)
             else map_of (append_store ss a (F a)) g)"
    using Cons by simp
  moreover have "F a \<noteq> []" using Cons.prems by simp
  ultimately show ?case
    using Cons.prems(1) by (auto simp: map_of_append_store)
qed

lemma map_of_partition_chunk:
  "map_of (partition_chunk ss c) g = extend_store (map_of ss g) (filter (\<lambda>r. region r = g) c)"
proof -
  have "\<And>x. x \<in> set (remdups (map region c)) \<Longrightarrow> filter (\<lambda>r. region r = x) c \<noteq> []"
    by (auto simp: filter_empty_conv)
  then have "map_of (partition_chunk ss c) g
               = (if g \<in> set (remdups (map region c))
                  then extend_store (map_of ss g) (filter (\<lambda>r. region r = g) c)
                  else map_of ss g)"
    unfolding partition_chunk_def
    by (intro map_of_foldl_append_store) simp_all
  moreover have "g \<notin> set (remdups (map region c)) \<Longrightarrow> filter (\<lambda>r. region r = g) c = []"
    by (auto simp: filter_empty_conv)
  ultimately show ?thesis by auto
qed

lemma snd_sort_step:
  "snd (sort_step sch vo so adj acc c)
     = (if so then snd acc else partition_chunk (snd acc) (filter_transform sch vo adj c))"
  by (simp add: sort_step_def Let_def)

lemma map_of_foldl_sort_step:
  "map_of (snd (foldl (sort_step sch vo False adj) acc cs)) g
     = extend_store (map_of (snd acc) g)
         (filter (\<lambda>r. region r = g) (filter_transform sch vo adj (concat cs)))"
  by (induction cs arbitrary: acc)
     (simp_all add: snd_sort_step map_of_partition_chunk filter_transform_append
        extend_store_append)

lemma sort_pass_stores:
  "map_of (snd (sort_pass sch vo False adj cs)) g
     = extend_store None
         (filter (\<lambda>r. region r = g) (filter_transform sch vo adj (concat cs)))"
  by (simp add: sort_pass_def map_of_foldl_sort_step)

lemma sort_pass_stats_only: "snd (sort_pass sch vo True adj cs) = []"
proof -
  have "\<And>acc. snd (foldl (sort_step sch vo True adj) acc cs) = snd acc"
    by (induction cs) (simp_all add: snd_sort_step)
  then show ?thesis by (simp add: sort_pass_def)
qed

lemma filter_transform_voters:
  "filter_transform sch True adj rows = filter_transform sch False adj (filter eligible rows)"
  by (simp add: filter_transform_def)


lemma distinct_append_store:
  assumes "distinct (map fst ss)"
  shows "distinct (map fst (append_store ss g sub))"
proof (cases "map_of ss g")
  case None
  then have "g \<notin> fst ` set ss" by (simp add: map_of_eq_None_iff)
  with assms None show ?thesis by (simp add: append_store_def)
next
  case (Some s)
  with assms show ?thesis by (simp add: append_store_def distinct_update)
qed

lemma distinct_partition_chunk:
  "distinct (map fst ss) \<Longrightarrow> distinct (map fst (partition_chunk ss c))"
proof -
  have "\<And>acc. distinct (map fst acc) \<Longrightarrow>
          distinct (map fst (foldl (\<lambda>acc g. append_store acc g (filter (\<lambda>r. region r = g) c))
                               acc gs))" for gs
    by (induction gs) (simp_all add: distinct_append_store)
  then show "distinct (map fst ss) \<Longrightarrow> distinct (map fst (partition_chunk ss c))"
    unfolding partition_chunk_def by blast
qed

lemma distinct_sort_pass: "distinct (map fst (snd (sort_pass sch vo so adj cs)))"
proof -
  have "\<And>acc. distinct (map fst (snd acc)) \<Longrightarrow>
          distinct (map fst (snd (foldl (sort_step sch vo so adj) acc cs)))"
    by (induction cs) (simp_all add: snd_sort_step distinct_partition_chunk)
  then show ?thesis by (simp add: sort_pass_def)
qed

lemma sort_pass_store_rows:
  assumes "(g, s) \<in> set (snd (sort_pass sch vo False adj cs))"
  shows "store_rows s = filter (\<lambda>r. region r = g) (filter_transform sch vo adj (concat cs))"
    and "consistent_store s"
proof -
  from assms distinct_sort_pass have "map_of (snd (sort_pass sch vo False adj cs)) g = Some s"
    by (metis map_of_is_SomeI)
  then have e: "extend_store None
                  (filter (\<lambda>r. region r = g) (filter_transform sch vo adj (concat cs))) = Some s"
    by (simp add: sort_pass_stores)
  then show "store_rows s
               = filter (\<lambda>r. region r = g) (filter_transform sch vo adj (concat cs))"
    by (auto simp: extend_store_def split: if_splits)
  from e show "consistent_store s"
    by (auto simp: extend_store_def consistent_store_def split: if_splits)
qed

lemma embed_rows_weight:
  "embed_rows st skip cols F acc rows = Inr a \<Longrightarrow>
     acc_wt a = acc_wt acc + sum_list (map weight rows)
     \<and> acc_rows a = acc_rows acc + length rows"
proof (induction rows arbitrary: acc)
  case Nil
  then show ?case by simp
next
  case (Cons r rows)
  from Cons.prems obtain b where b: "embed_row st skip cols F acc r = Inr b"
    and a: "embed_rows st skip cols F b rows = Inr a"
    by (auto simp: and_then_eq_Inr)
  from b have "acc_wt b = acc_wt acc + weight r" and "acc_rows b = Suc (acc_rows acc)"
    by (auto simp: embed_row_def and_then_eq_Inr)
  with Cons.IH [OF a] show ?case by simp
qed

lemma embed_chunks_weight:
  "embed_chunks st skip cols F None acc chunks = Inr a \<Longrightarrow>
     acc_wt a = acc_wt acc + sum_list (map weight (concat chunks))
     \<and> acc_rows a = acc_rows acc + length (concat chunks)"
proof (induction chunks arbitrary: acc)
  case Nil
  then show ?case by simp
next
  case (Cons c chunks)
  from Cons.prems obtain b where b: "embed_rows st skip cols F acc c = Inr b"
    and a: "embed_chunks st skip cols F None b chunks = Inr a"
    by (auto simp: and_then_eq_Inr select_rows_def)
  from embed_rows_weight [OF b] Cons.IH [OF a] show ?case by simp
qed

lemma embed_weight:
  assumes "embed st skip cols F None chunks = Inr e"
  shows "emb_weight e = sum_list (map weight (concat chunks))"
proof -
  from assms obtain a where
    a: "embed_chunks st skip cols F None
          (init_acc (length cols) (case F of None \<Rightarrow> 0 | Some fm \<Rightarrow> 2 * length fm)) chunks = Inr a"
    and f: "finish a = Inr e"
    by (auto simp: embed_def and_then_eq_Inr)
  from embed_chunks_weight [OF a] have w: "acc_wt a = sum_list (map weight (concat chunks))"
    and n: "acc_rows a = length (concat chunks)"
    by (simp_all add: init_acc_def)
  show ?thesis
  proof (cases "acc_rows a = 0")
    case True
    have z: "sum_list (map weight xs) = 0" if "length xs = 0" for xs :: "person list"
      using that by simp
    from n True have "sum_list (map weight (concat chunks)) = 0"
      by (intro z) simp
    moreover from f True have "emb_weight e = 0" by (auto simp: finish_def)
    ultimately show ?thesis by simp
  next
    case False
    with f w show ?thesis by (auto simp: finish_def split: if_splits)
  qed
qed

lemma embed_chunks_no_rows:
  assumes "\<forall>c \<in> set chunks. select_rows sel c = []"
  shows "embed_chunks st skip cols F sel acc chunks = Inr acc"
  using assms by (induction chunks) simp_all

lemma sum_list_alist:
  "distinct (map fst ss) \<Longrightarrow>
     sum_list (map (\<lambda>p. f (snd p)) ss) = (\<Sum>g \<in> fst ` set ss. f (the (map_of ss g)))"
proof (induction ss)
  case Nil
  then show ?case by simp
next
  case (Cons p ss)
  obtain g s where p: "p = (g, s)" by (cases p)
  from Cons.prems p have g: "g \<notin> fst ` set ss" and d: "distinct (map fst ss)"
    by auto
  have "(\<Sum>x \<in> fst ` set ss. f (the (map_of (p # ss) x)))
          = (\<Sum>x \<in> fst ` set ss. f (the (map_of ss x)))"
    using g p by (intro sum.cong) auto
  with Cons.IH [OF d] g p show ?case by simp
qed

lemma sum_groups:
  fixes w :: "'a \<Rightarrow> real"
  assumes "finite G" and "k ` set rows \<subseteq> G"
  shows "(\<Sum>g \<in> G. sum_list (map w (filter (\<lambda>r. k r = g) rows))) = sum_list (map w rows)"
  using assms(2)
proof (induction rows)
  case Nil
  then show ?case by simp
next
  case (Cons r rows)
  then have in_G: "k r \<in> G" and sub: "k ` set rows \<subseteq> G" by auto
  have "(\<Sum>g \<in> G. sum_list (map w (filter (\<lambda>x. k x = g) (r # rows))))
          = (\<Sum>g \<in> G. (if g = k r then w r else 0)
                        + sum_list (map w (filter (\<lambda>x. k x = g) rows)))"
    by (intro sum.cong) auto
  also have "\<dots> = (\<Sum>g \<in> G. if g = k r then w r else 0)
                   + (\<Sum>g \<in> G. sum_list (map w (filter (\<lambda>x. k x = g) rows)))"
    by (simp add: sum.distrib)
  also have "(\<Sum>g \<in> G. if g = k r then w r else 0) = w r"
    using assms(1) in_G by simp
  finally show ?case using Cons.IH [OF sub] by simp
qed

lemma sort_pass_total:
  "sum_list (map (\<lambda>p. total_wt (snd p)) (snd (sort_pass sch vo False adj cs)))
     = wtotal (fst (sort_pass sch vo False adj cs))"
proof -
  let ?ss = "snd (sort_pass sch vo False adj cs)"
  let ?kept = "filter_transform sch vo adj (concat cs)"
  have look: "map_of ?ss g = extend_store None (filter (\<lambda>r. region r = g) ?kept)" for g
    by (rule sort_pass_stores)
  have keys: "fst ` set ?ss = region ` set ?kept"
  proof -
    have "g \<in> fst ` set ?ss \<longleftrightarrow> g \<in> region ` set ?kept" for g
    proof -
      have "g \<in> fst ` set ?ss \<longleftrightarrow> map_of ?ss g \<noteq> None"
        by (simp add: map_of_eq_None_iff)
      also have "\<dots> \<longleftrightarrow> filter (\<lambda>r. region r = g) ?kept \<noteq> []"
        unfolding look by (simp add: extend_store_def)
      also have "\<dots> \<longleftrightarrow> g \<in> region ` set ?kept"
        by (auto simp: filter_empty_conv)
      finally show ?thesis .
    qed
    then show ?thesis by blast
  qed
  have "sum_list (map (\<lambda>p. total_wt (snd p)) ?ss)
          = (\<Sum>g \<in> fst ` set ?ss. total_wt (the (map_of ?ss g)))"
    using distinct_sort_pass by (rule sum_list_alist)
  also have "\<dots> = (\<Sum>g \<in> region ` set ?kept.
                      sum_list (map weight (filter (\<lambda>r. region r = g) ?kept)))"
    unfolding keys
  proof (intro sum.cong refl)
    fix g assume "g \<in> region ` set ?kept"
    then have "filter (\<lambda>r. region r = g) ?kept \<noteq> []"
      by (auto simp: filter_empty_conv)
    then show "total_wt (the (map_of ?ss g))
                 = sum_list (map weight (filter (\<lambda>r. region r = g) ?kept))"
      unfolding look by (simp add: extend_store_def)
  qed
  also have "\<dots> = sum_list (map weight ?kept)"
    by (rule sum_groups) simp_all
  also have "\<dots> = wtotal (fst (sort_pass sch vo False adj cs))"
    by (simp add: sort_pass_stats accumulate_def init_stats_def)
  finally show ?thesis .
qed

subsection \<open>The kernel embedding engine\<close>

text \<open>
  C7. When a subset predicate matches no row of a region, the embedding of the region
  for that subset is computed without an error: the linear and the Fourier
  embedding are all zeros and the total weight is 0.
\<close>

theorem empty_subset_embedding:
  assumes "filter p (concat chunks) = []"
  shows "embed st skip cols F (Some p) chunks
           = Inr \<lparr>lin = replicate (length cols) 0,
                  rff = replicate (case F of None \<Rightarrow> 0 | Some fm \<Rightarrow> 2 * length fm) 0,
                  emb_weight = 0\<rparr>"
proof -
  have "filter p c = []" if "c \<in> set chunks" for c
  proof -
    from that have "set c \<subseteq> set (concat chunks)" by auto
    with assms show ?thesis by (auto simp: filter_empty_conv)
  qed
  then have "\<forall>c \<in> set chunks. select_rows (Some p) c = []"
    by (simp add: select_rows_def)
  then show ?thesis
    by (simp add: embed_def embed_chunks_no_rows finish_def init_acc_def)
qed

theorem empty_subset_embedding_witness:
  "filter (\<lambda>r. 100 < age r) (concat [take 2 example_rows, drop 2 example_rows]) = []
   \<and> embed example_stats [] (columns example_stats True []) (Some [[1, 0, 0, 0]])
        (Some (\<lambda>r. 100 < age r)) [take 2 example_rows, drop 2 example_rows]
       = Inr \<lparr>lin = [0, 0, 0, 0], rff = [0, 0], emb_weight = 0\<rparr>"
proof -
  have e: "filter (\<lambda>r. 100 < age r) (concat [take 2 example_rows, drop 2 example_rows]) = []"
    by (simp add: example_rows_def example_person_def)
  have c: "length (columns example_stats True []) = 4"
    by (simp add: columns_def example_stats_def kept_fields_def)
  from empty_subset_embedding [OF e, of example_stats "[]" "columns example_stats True []"
         "Some [[1, 0, 0, 0]]"]
  show ?thesis using e c by (simp add: numeral_eq_Suc)
qed

lemma embed_subsets_all:
  assumes "embed_subsets st skip cols F chunks [None] = Inr es"
  shows "\<exists>e. es = [e] \<and> embed st skip cols F None chunks = Inr e"
  using assms by (auto simp: and_then_eq_Inr)

lemma embed_files_weights:
  assumes "embed_files w st skip cols F n [None] fs = Inr ess" and "0 < n"
  shows "\<exists>stores. map (read_store w) fs = map Inr stores
           \<and> concat (map (map emb_weight) ess)
               = map (\<lambda>s. sum_list (map weight (store_rows s))) stores"
  using assms(1)
proof (induction fs arbitrary: ess)
  case Nil
  then show ?case by simp
next
  case (Cons f fs)
  from Cons.prems obtain s es rest where s: "read_store w f = Inr s"
    and es: "embed_subsets st skip cols F (chunks_of n (store_rows s)) [None] = Inr es"
    and rest: "embed_files w st skip cols F n [None] fs = Inr rest"
    and ess: "ess = es # rest"
    by (auto simp: and_then_eq_Inr)
  from embed_subsets_all [OF es] obtain e where e: "es = [e]"
    and emb: "embed st skip cols F None (chunks_of n (store_rows s)) = Inr e"
    by blast
  from embed_weight [OF emb] assms(2)
  have we: "emb_weight e = sum_list (map weight (store_rows s))"
    by (simp add: concat_chunks_of)
  from Cons.IH [OF rest] obtain stores where
    st: "map (read_store w) fs = map Inr stores"
    and ws: "concat (map (map emb_weight) rest)
               = map (\<lambda>s. sum_list (map weight (store_rows s))) stores"
    by blast
  have "map (read_store w) (f # fs) = map Inr (s # stores)"
    using s st by simp
  moreover have "concat (map (map emb_weight) ess)
                   = map (\<lambda>s. sum_list (map weight (store_rows s))) (s # stores)"
    using ess e we ws by simp
  ultimately show ?case by blast
qed

lemma get_embeddings_weights:
  assumes "get_embeddings ext kw w = Inr t" and "k_subsets kw = None"
  shows "\<exists>stores. map (read_store w) (k_files kw) = map Inr stores
           \<and> (if k_skip_rbf kw then length t = 3 \<and> t ! 1 = num_array (map (\<lambda>s. sum_list (map weight (store_rows s))) stores)
               else length t = 6 \<and> t ! 2 = num_array (map (\<lambda>s. sum_list (map weight (store_rows s))) stores))"
proof -
  from assms(1) have n: "0 < nat (k_chunksize kw)"
    by (auto simp: get_embeddings_def split: if_splits)
  from assms obtain ess F skip where
    ef: "embed_files w (k_stats kw) skip (columns (k_stats kw) (k_skip_alloc_flags kw) skip) F
           (nat (k_chunksize kw)) [None] (k_files kw) = Inr ess"
    and t: "if k_skip_rbf kw
            then length t = 3 \<and> t ! 1 = pack_weights True (map (map emb_weight) ess)
            else length t = 6 \<and> t ! 2 = pack_weights True (map (map emb_weight) ess)"
    by (auto simp: get_embeddings_def Let_def and_then_eq_Inr subset_predicates_def
             split: if_splits)
  from embed_files_weights [OF ef n] t show ?thesis
    by (auto simp: pack_weights_def)
qed

lemma set_update_subset: "set (AList.update k v al) \<subseteq> insert (k, v) (set al)"
  by (induction al) auto

lemma files_write_file:
  "set (files (write_file w p f)) \<subseteq> insert (abspath (cwd w) p, f) (set (files w))"
  by (simp add: write_file_def set_update_subset)

lemma write_stores_files:
  assumes "write_stores fmt w ss = Inr w1" and "(k, c) \<in> set (files w1)"
  shows "(k, c) \<in> set (files w) \<or> (\<exists>g s. (g, s) \<in> set ss \<and> c = RegionFile s)"
  using assms
proof (induction ss arbitrary: w)
  case Nil
  then show ?case by simp
next
  case (Cons a ss)
  obtain g s where a: "a = (g, s)" by (cases a)
  from Cons.prems(1) a obtain p where
    w1: "write_stores fmt (write_file w p (RegionFile s)) ss = Inr w1"
    by (auto simp: and_then_eq_Inr)
  from Cons.IH [OF w1 Cons.prems(2)]
  have "(k, c) \<in> set (files (write_file w p (RegionFile s)))
        \<or> (\<exists>g s. (g, s) \<in> set ss \<and> c = RegionFile s)" .
  then show ?case
    using files_write_file [of w p "RegionFile s"] a by auto
qed

lemma do_sort_Inr:
  assumes "do_sort versions args w = Inr w'"
  shows "\<exists>sch inputs w1 st.
           versions (version args) = Some sch
         \<and> 0 < nat (sort_chunksize args)
         \<and> read_source w (sort_source args) = Inr inputs
         \<and> write_stores (path_join (out_dir args) ''feats_{}.h5'') w
             (snd (sort_pass sch (voters_only args) (stats_only args) True
                     (concat (map (chunks_of (nat (sort_chunksize args))) inputs)))) = Inr w1
         \<and> finalize sch
             (fst (sort_pass sch (voters_only args) (stats_only args) True
                     (concat (map (chunks_of (nat (sort_chunksize args))) inputs)))) = Inr st
         \<and> w' = save_stats w1 (path_join (out_dir args) ''stats.h5'') st"
  using assms
  by (auto simp: do_sort_def sort_by_region_def and_then_eq_Inr Let_def
           split: option.splits if_splits)

lemma do_sort_new_store:
  assumes run: "do_sort versions args w = Inr w'"
    and new: "(k, RegionFile s) \<in> set (files w')" "(k, RegionFile s) \<notin> set (files w)"
  shows "\<exists>sch inputs g.
           versions (version args) = Some sch
         \<and> read_source w (sort_source args) = Inr inputs
         \<and> \<not> stats_only args
         \<and> consistent_store s
         \<and> store_rows s
             = filter (\<lambda>r. region r = g)
                 (filter_transform sch (voters_only args) True (concat inputs))"
proof -
  from do_sort_Inr [OF run] obtain sch inputs w1 st where
    sch: "versions (version args) = Some sch"
    and n: "0 < nat (sort_chunksize args)"
    and src: "read_source w (sort_source args) = Inr inputs"
    and w1: "write_stores (path_join (out_dir args) ''feats_{}.h5'') w
               (snd (sort_pass sch (voters_only args) (stats_only args) True
                       (concat (map (chunks_of (nat (sort_chunksize args))) inputs)))) = Inr w1"
    and w': "w' = save_stats w1 (path_join (out_dir args) ''stats.h5'') st"
    by blast
  let ?cs = "concat (map (chunks_of (nat (sort_chunksize args))) inputs)"
  from new(1) have "(k, RegionFile s) \<in> set (files w1)"
    unfolding w' save_stats_def
    using files_write_file [of w1 "path_join (out_dir args) ''stats.h5''" "StatsFile st"]
    by auto
  from write_stores_files [OF w1 this] new(2) obtain g where
    g: "(g, s) \<in> set (snd (sort_pass sch (voters_only args) (stats_only args) True ?cs))"
    by auto
  then have so: "\<not> stats_only args"
    by (auto simp: sort_pass_stats_only)
  with g have g': "(g, s) \<in> set (snd (sort_pass sch (voters_only args) False True ?cs))"
    by simp
  from sort_pass_store_rows [OF g'] n
  have "store_rows s
          = filter (\<lambda>r. region r = g)
              (filter_transform sch (voters_only args) True (concat inputs))"
    and "consistent_store s"
    by (simp_all add: concat_map_chunks_of)
  with sch src so show ?thesis by blast
qed

lemma ex_source:
  "read_source input_world (sort_source example_sort_args) = Inr [example_rows]"
  by (simp add: read_source_def sort_source_def example_sort_args_def input_world_def
        read_csv_def read_file_def path_eval)

lemma ex_chunks:
  "chunks_of (nat (sort_chunksize example_sort_args)) example_rows
     = [take 2 example_rows, take 2 (drop 2 example_rows), drop 4 example_rows]"
  by (simp add: example_sort_args_def example_rows_def chunks_of.simps)

lemma adjust_income_fields [simp]:
  "region (adjust_income sch r) = region r"
  "weight (adjust_income sch r) = weight r"
  by (simp_all add: adjust_income_def)

lemma example_person_fields [simp]:
  "region (example_person g c a s inc wt) = g"
  "weight (example_person g c a s inc wt) = wt"
  "eligible (example_person g c a s inc wt) = (c \<and> 18 \<le> a)"
  by (simp_all add: example_person_def eligible_def)

lemma ex_pass:
  "snd (sort_pass example_schema True False True
          [take 2 example_rows, take 2 (drop 2 example_rows), drop 4 example_rows])
     = [(''A'', \<lparr>store_rows = [adjust_income example_schema (example_person ''A'' True 30 1 100 2),
                               adjust_income example_schema (example_person ''A'' True 18 2 50 4)],
                 total_wt = 6\<rparr>),
        (''B'', \<lparr>store_rows = [adjust_income example_schema (example_person ''B'' True 50 1 200 3)],
                 total_wt = 3\<rparr>)]"
  by (simp add: sort_pass_def sort_step_def filter_transform_def partition_chunk_def
        append_store_def example_rows_def Let_def)

lemma ex_write:
  "write_stores (path_join (out_dir example_sort_args) ''feats_{}.h5'') input_world
     [(''A'', sa), (''B'', sb)]
   = Inr (input_world\<lparr>files := [(''/w/in.csv'', CsvInput example_rows),
                                  (''/w/out/feats_A.h5'', RegionFile sa),
                                  (''/w/out/feats_B.h5'', RegionFile sb)]\<rparr>)"
  by (simp add: example_sort_args_def input_world_def str_format_def write_file_def path_eval)


lemma ex_version: "example_versions (version example_sort_args) = Some example_schema"
  by (simp add: example_versions_def example_sort_args_def)

lemma ex_finalize:
  "\<exists>st. finalize example_schema
          (fst (sort_pass example_schema True False True
                  [take 2 example_rows, take 2 (drop 2 example_rows), drop 4 example_rows]))
        = Inr st"
  by (simp add: sort_pass_stats finalize_def accumulate_def init_stats_def filter_transform_def
        example_rows_def example_schema_def)

lemma ex_run:
  "\<exists>st. do_sort example_versions example_sort_args input_world
         = Inr (save_stats
                  (input_world\<lparr>files := [(''/w/in.csv'', CsvInput example_rows),
                     (''/w/out/feats_A.h5'',
                      RegionFile \<lparr>store_rows =
                          [adjust_income example_schema (example_person ''A'' True 30 1 100 2),
                           adjust_income example_schema (example_person ''A'' True 18 2 50 4)],
                        total_wt = 6\<rparr>),
                     (''/w/out/feats_B.h5'',
                      RegionFile \<lparr>store_rows =
                          [adjust_income example_schema (example_person ''B'' True 50 1 200 3)],
                        total_wt = 3\<rparr>)]\<rparr>)
                  (path_join (out_dir example_sort_args) ''stats.h5'') st)"
proof -
  from ex_finalize obtain st where
    st: "finalize example_schema
           (fst (sort_pass example_schema True False True
                   [take 2 example_rows, take 2 (drop 2 example_rows), drop 4 example_rows]))
         = Inr st"
    by blast
  have f: "voters_only example_sort_args" "\<not> stats_only example_sort_args"
    "\<not> sort_chunksize example_sort_args < 1"
    by (simp_all add: example_sort_args_def)
  show ?thesis
    unfolding do_sort_def sort_by_region_def ex_version ex_source Let_def
    using f by (intro exI [of _ st]) (simp add: ex_chunks ex_pass ex_write st del: write_stores.simps)
qed

text \<open>
  C6. Every row that a sort run persists to a region store is an input row with its
  reported income fields multiplied by the adjustment factor of the record, and
  its other continuous fields unchanged: the sort command calls the sorter with
  the income adjustment always on.
\<close>

theorem stored_rows_income_adjusted:
  assumes "do_sort versions args w = Inr w'"
    and "(k, RegionFile s) \<in> set (files w')" and "(k, RegionFile s) \<notin> set (files w)"
    and "x \<in> set (store_rows s)"
  shows "\<exists>sch inputs r.
           versions (version args) = Some sch
         \<and> read_source w (sort_source args) = Inr inputs
         \<and> r \<in> set (concat inputs)
         \<and> x = adjust_income sch r
         \<and> (\<forall>f. cont x f = (if f \<in> set (income_fields sch) then cont r f * adj_factor r
                              else cont r f))"
proof -
  from do_sort_new_store [OF assms(1-3)] obtain sch inputs g where
    sch: "versions (version args) = Some sch"
    and src: "read_source w (sort_source args) = Inr inputs"
    and rows: "store_rows s
                 = filter (\<lambda>r. region r = g)
                     (filter_transform sch (voters_only args) True (concat inputs))"
    by blast
  from assms(4) rows obtain r where r: "r \<in> set (concat inputs)" and x: "x = adjust_income sch r"
    by (auto simp: filter_transform_def Let_def split: if_splits)
  have "\<forall>f. cont x f = (if f \<in> set (income_fields sch) then cont r f * adj_factor r
                          else cont r f)"
    by (simp add: x adjust_income_def)
  with sch src r x show ?thesis by blast
qed

theorem stored_rows_income_adjusted_witness:
  "\<exists>w' r.
     do_sort example_versions example_sort_args input_world = Inr w'
   \<and> (''/w/out/feats_B.h5'',
       RegionFile \<lparr>store_rows =
                     [adjust_income example_schema (example_person ''B'' True 50 1 200 3)],
                   total_wt = 3\<rparr>) \<in> set (files w')
   \<and> r \<in> set example_rows
   \<and> adjust_income example_schema (example_person ''B'' True 50 1 200 3)
       = adjust_income example_schema r
   \<and> cont (adjust_income example_schema (example_person ''B'' True 50 1 200 3)) ''PINCP''
       = cont r ''PINCP'' * adj_factor r"
proof -
  let ?x = "adjust_income example_schema (example_person ''B'' True 50 1 200 3)"
  let ?sB = "\<lparr>store_rows = [?x], total_wt = 3\<rparr>"
  from ex_run obtain w' where run: "do_sort example_versions example_sort_args input_world = Inr w'"
    and mem: "(''/w/out/feats_B.h5'', RegionFile ?sB) \<in> set (files w')"
    by (auto simp: save_stats_def write_file_def input_world_def example_sort_args_def
          abspath_def normpath_def path_join_def startswith_def endswith_def
          suffix_to_prefix norm_comp_def Let_def)
  have new: "(''/w/out/feats_B.h5'', RegionFile ?sB) \<notin> set (files input_world)"
    by (simp add: input_world_def)
  have x: "?x \<in> set (store_rows ?sB)"
    by simp
  from stored_rows_income_adjusted [OF run mem new x] obtain r where
    "r \<in> set example_rows" "?x = adjust_income example_schema r"
    "cont ?x ''PINCP'' = cont r ''PINCP'' * adj_factor r"
    unfolding ex_version ex_source by (auto simp: example_schema_def)
  with run mem show ?thesis by blast
qed

subsection \<open>Total weights across the phases\<close>

lemma stores_consistent_iff:
  "stores_consistent w \<longleftrightarrow> (\<forall>k s. (k, RegionFile s) \<in> set (files w) \<longrightarrow> consistent_store s)"
proof
  assume a: "stores_consistent w"
  show "\<forall>k s. (k, RegionFile s) \<in> set (files w) \<longrightarrow> consistent_store s"
  proof (intro allI impI)
    fix k s assume "(k, RegionFile s) \<in> set (files w)"
    with a have "case snd (k, RegionFile s) of RegionFile s \<Rightarrow> consistent_store s | _ \<Rightarrow> True"
      unfolding stores_consistent_def list_all_iff by blast
    then show "consistent_store s" by simp
  qed
next
  assume a: "\<forall>k s. (k, RegionFile s) \<in> set (files w) \<longrightarrow> consistent_store s"
  show "stores_consistent w"
    unfolding stores_consistent_def list_all_iff
  proof
    fix p assume p: "p \<in> set (files w)"
    show "case snd p of RegionFile s \<Rightarrow> consistent_store s | _ \<Rightarrow> True"
    proof (cases "snd p")
      case (RegionFile s)
      with p have "(fst p, RegionFile s) \<in> set (files w)"
        by (metis prod.collapse)
      with a RegionFile show ?thesis by simp
    qed simp_all
  qed
qed

lemma do_sort_consistent:
  assumes "do_sort versions args w0 = Inr w" and "stores_consistent w0"
  shows "stores_consistent w"
  unfolding stores_consistent_iff
proof (intro allI impI)
  fix k s assume m: "(k, RegionFile s) \<in> set (files w)"
  show "consistent_store s"
  proof (cases "(k, RegionFile s) \<in> set (files w0)")
    case True
    with assms(2) show ?thesis unfolding stores_consistent_iff by blast
  next
    case False
    from do_sort_new_store [OF assms(1) m False] show ?thesis by blast
  qed
qed

lemma read_store_file:
  "read_store w f = Inr s \<Longrightarrow> (abspath (cwd w) f, RegionFile s) \<in> set (files w)"
  by (auto simp: read_store_def read_file_def and_then_eq_Inr
           split: option.splits content.splits dest: map_of_SomeD)

lemma read_total_wt_store: "read_store w f = Inr s \<Longrightarrow> read_total_wt w f = Inr (total_wt s)"
  by (auto simp: read_store_def read_total_wt_def and_then_eq_Inr split: content.splits)

lemma read_stores_totals:
  assumes "map (read_store w) fs = map Inr stores" and "stores_consistent w"
  shows "map (read_total_wt w) fs = map (\<lambda>s. Inr (total_wt s)) stores
       \<and> map (\<lambda>s. sum_list (map weight (store_rows s))) stores = map total_wt stores"
  using assms(1)
proof (induction fs arbitrary: stores)
  case Nil
  then show ?case by simp
next
  case (Cons f fs)
  then obtain s rest where st: "stores = s # rest" and s: "read_store w f = Inr s"
    and rest: "map (read_store w) fs = map Inr rest"
    by (cases stores) auto
  from read_store_file [OF s] assms(2) have "consistent_store s"
    unfolding stores_consistent_iff by blast
  with Cons.IH [OF rest] read_total_wt_store [OF s] st show ?case
    by (simp add: consistent_store_def)
qed

lemma do_featurize_region_weights:
  assumes run: "do_featurize (get_embeddings ext) args w = Inr w'"
    and nosub: "subsets args = None" and cons: "stores_consistent w"
  shows "\<exists>fs (stores :: region_store list) entries.
           glob_feats w (f_dir args) = Inr fs
         \<and> map (read_total_wt w) fs = map (\<lambda>s. Inr (total_wt s)) stores
         \<and> np_load w' (npz_path (featurize_outfile args)) = Inr entries
         \<and> map_of entries ''region_names'' = Some (str_array (map region_name_of fs))
         \<and> map_of entries ''region_weights'' = Some (num_array (map total_wt stores))"
proof -
  from do_featurize_Inr [OF run] obtain st fs t where
    fs: "glob_feats w (f_dir args) = Inr fs"
    and t: "get_embeddings ext (featurize_kwargs args fs st) w = Inr t"
    and res: "if skip_rbf args
              then \<exists>a b c. t = [a, b, c]
                     \<and> w' = savez w (featurize_outfile args)
                         [(''emb_lin'', a), (''region_weights'', b), (''feature_names'', c),
                          (''region_names'', str_array (map region_name_of fs)),
                          (''subset_queries'', subset_queries_array (subsets args))]
              else \<exists>a b c d e f. t = [a, b, c, d, e, f]
                     \<and> w' = savez w (featurize_outfile args)
                         [(''emb_lin'', a), (''emb_rff'', b), (''region_weights'', c),
                          (''freqs'', d), (''bandwidth'', e), (''feature_names'', f),
                          (''region_names'', str_array (map region_name_of fs)),
                          (''subset_queries'', subset_queries_array (subsets args))]"
    by blast
  have kw: "k_subsets (featurize_kwargs args fs st) = None"
    "k_files (featurize_kwargs args fs st) = fs"
    "k_skip_rbf (featurize_kwargs args fs st) = skip_rbf args"
    using nosub by (simp_all add: featurize_kwargs_def)
  from get_embeddings_weights [OF t kw(1)] obtain stores where
    rd: "map (read_store w) fs = map Inr stores"
    and wt: "if skip_rbf args
             then t ! 1 = num_array (map (\<lambda>s. sum_list (map weight (store_rows s))) stores)
             else t ! 2 = num_array (map (\<lambda>s. sum_list (map weight (store_rows s))) stores)"
    unfolding kw by (auto split: if_splits)
  from read_stores_totals [OF rd cons] have
    tot: "map (read_total_wt w) fs = map (\<lambda>s. Inr (total_wt s)) stores"
    and eq: "map (\<lambda>s. sum_list (map weight (store_rows s))) stores = map total_wt stores"
    by simp_all
  show ?thesis
  proof (cases "skip_rbf args")
    case True
    with res obtain a b c where t3: "t = [a, b, c]"
      and w': "w' = savez w (featurize_outfile args)
                 [(''emb_lin'', a), (''region_weights'', b), (''feature_names'', c),
                  (''region_names'', str_array (map region_name_of fs)),
                  (''subset_queries'', subset_queries_array (subsets args))]"
      by auto
    from wt True t3 eq have b: "b = num_array (map total_wt stores)" by simp
    let ?E = "[(''emb_lin'', a), (''region_weights'', b), (''feature_names'', c),
               (''region_names'', str_array (map region_name_of fs)),
               (''subset_queries'', subset_queries_array (subsets args))]"
    have l: "np_load w' (npz_path (featurize_outfile args)) = Inr ?E"
      unfolding w' by simp
    have rn: "map_of ?E ''region_names'' = Some (str_array (map region_name_of fs))"
      by simp
    have rw: "map_of ?E ''region_weights'' = Some (num_array (map total_wt stores))"
      using b by simp
    show ?thesis
      by (intro exI conjI) (rule fs, rule tot, rule l, rule rn, rule rw)
  next
    case False
    with res obtain a b c d e f where t6: "t = [a, b, c, d, e, f]"
      and w': "w' = savez w (featurize_outfile args)
                 [(''emb_lin'', a), (''emb_rff'', b), (''region_weights'', c),
                  (''freqs'', d), (''bandwidth'', e), (''feature_names'', f),
                  (''region_names'', str_array (map region_name_of fs)),
                  (''subset_queries'', subset_queries_array (subsets args))]"
      by auto
    from wt False t6 eq have c: "c = num_array (map total_wt stores)" by simp
    let ?E = "[(''emb_lin'', a), (''emb_rff'', b), (''region_weights'', c),
               (''freqs'', d), (''bandwidth'', e), (''feature_names'', f),
               (''region_names'', str_array (map region_name_of fs)),
               (''subset_queries'', subset_queries_array (subsets args))]"
    have l: "np_load w' (npz_path (featurize_outfile args)) = Inr ?E"
      unfolding w' by simp
    have rn: "map_of ?E ''region_names'' = Some (str_array (map region_name_of fs))"
      by simp
    have rw: "map_of ?E ''region_weights'' = Some (num_array (map total_wt stores))"
      using c by simp
    show ?thesis
      by (intro exI conjI) (rule fs, rule tot, rule l, rule rn, rule rw)
  qed
qed

lemma example_columns:
  "columns example_stats True []
     = [OneHot ''SEX'' 1, OneHot ''SEX'' 2, Standardized ''AGEP'', Standardized ''PINCP'']"
  by (simp add: columns_def example_stats_def kept_fields_def)

lemma region_world_files:
  "load_stats region_world (path_join ''d'' ''stats.h5'') = Inr example_stats"
  "glob_feats region_world ''d'' = Inr [''d/feats_A.h5'']"
  "read_store region_world ''d/feats_A.h5''
     = Inr \<lparr>store_rows = [example_person ''A'' True 30 1 100 2], total_wt = 2\<rparr>"
  "read_total_wt region_world ''d/feats_A.h5'' = Inr 2"
  by (simp_all add: region_world_def load_stats_def read_store_def
        read_total_wt_def read_file_def glob_feats_def listdir_def has_magic_def
        matches_feats_def dirname_def basename_def path_eval)

lemma example_encode:
  "encode_row example_stats []
     [OneHot ''SEX'' 1, OneHot ''SEX'' 2, Standardized ''AGEP'', Standardized ''PINCP'']
     (example_person ''A'' True 30 1 100 2) = Inr [1, 0, - 1, 6]"
  by (simp add: encode_row_def column_value_def)
     (simp add: example_stats_def kept_fields_def example_person_def)

lemma example_names:
  "map column_name (columns example_stats True []) = [''SEX_1'', ''SEX_2'', ''AGEP'', ''PINCP'']"
  by (simp add: example_columns column_name_def string_of_int_def string_of_nat.simps
        digit_char_def)

lemma example_chunks:
  "chunks_of 8192 [example_person ''A'' True 30 1 100 2]
     = [[example_person ''A'' True 30 1 100 2]]"
  by (simp add: chunks_of.simps)

lemma example_embed_all:
  "embed example_stats []
     [OneHot ''SEX'' 1, OneHot ''SEX'' 2, Standardized ''AGEP'', Standardized ''PINCP'']
     None None [[example_person ''A'' True 30 1 100 2]]
   = Inr \<lparr>lin = [1, 0, - 1, 6], rff = [], emb_weight = 2\<rparr>"
  unfolding embed_def
  by (simp add: select_rows_def embed_row_def example_encode)
     (simp add: init_acc_def vadd_def scale_def finish_def)

lemma Suc4: "Suc (Suc (Suc (Suc 0))) = 4"
  by simp

lemma example_get_embeddings:
  "get_embeddings example_externals
     (featurize_kwargs linear_args [''d/feats_A.h5''] example_stats) region_world
   = Inr [num_matrix 4 [[1, 0, - 1, 6]], num_array [2],
          str_array [''SEX_1'', ''SEX_2'', ''AGEP'', ''PINCP'']]"
  unfolding get_embeddings_def
  by (simp add: featurize_kwargs_def linear_args_def subset_predicates_def Let_def
        region_world_files example_names pack_vectors_def pack_weights_def)
     (simp add: example_columns example_chunks example_embed_all Suc4)

lemma example_outfile:
  "featurize_outfile linear_args = ''d/embeddings.npz''"
  "npz_path ''d/embeddings.npz'' = ''d/embeddings.npz''"
  by (simp_all add: featurize_outfile_def linear_args_def npz_path_def
        path_join_def startswith_def endswith_def suffix_to_prefix)

lemma example_region_name: "region_name_of ''d/feats_A.h5'' = ''A''"
  by (simp add: region_name_of_def basename_def py_slice_def slice_bound_def)

lemma example_featurize:
  "do_featurize (get_embeddings example_externals) linear_args region_world
   = Inr (savez region_world ''d/embeddings.npz''
            [(''emb_lin'', num_matrix 4 [[1, 0, - 1, 6]]), (''region_weights'', num_array [2]),
             (''feature_names'', str_array [''SEX_1'', ''SEX_2'', ''AGEP'', ''PINCP'']),
             (''region_names'', str_array [''A'']),
             (''subset_queries'', scalar_array PyNone)])"
proof -
  have a: "f_dir linear_args = ''d''" "skip_rbf linear_args" "subsets linear_args = None"
    by (simp_all add: linear_args_def)
  show ?thesis
    unfolding do_featurize_def a region_world_files Let_def example_outfile
    by (simp add: a example_get_embeddings example_region_name subset_queries_array_def)
qed

lemma example_consistent:
  "stores_consistent region_world" "stores_consistent input_world"
  by (simp_all add: stores_consistent_def region_world_def input_world_def
        consistent_store_def)

lemma single_total:
  "map (\<lambda>s. Inr (f s) :: error + real) xs = [Inr a] \<Longrightarrow> map f xs = [a]"
  by (cases xs) auto

text \<open>
  C1. Over the same filtered input, the total weight per region that the featurize
  phase reports equals the total that the partitioning phase stored for the region,
  and the store totals add up to the weight the statistics accumulated. A sort run
  leaves every region store with a total that is the sum of the weights of its rows.
  For a featurize run over all rows of such stores (no subset query), the region
  weights in the embedding archive are, region by region in the order of the region
  names, the totals stored in the region stores, which are the values the
  weight-counts command reads. For a sort pass that partitions, the sum of the totals
  of all region stores is the total weight accumulated for the statistics.
\<close>

theorem region_weights_match:
  "(\<forall>versions sargs w0 w.
      do_sort versions sargs w0 = Inr w \<and> stores_consistent w0 \<longrightarrow> stores_consistent w)
   \<and> (\<forall>ext fargs w w'.
        stores_consistent w \<and> do_featurize (get_embeddings ext) fargs w = Inr w'
        \<and> subsets fargs = None \<longrightarrow>
        (\<exists>fs (stores :: region_store list) entries.
           glob_feats w (f_dir fargs) = Inr fs
         \<and> map (read_total_wt w) fs = map (\<lambda>s. Inr (total_wt s)) stores
         \<and> np_load w' (npz_path (featurize_outfile fargs)) = Inr entries
         \<and> map_of entries ''region_names'' = Some (str_array (map region_name_of fs))
         \<and> map_of entries ''region_weights'' = Some (num_array (map total_wt stores))))
   \<and> sum_list (map (\<lambda>p. total_wt (snd p)) (snd (sort_pass sch vo False adj cs)))
       = wtotal (fst (sort_pass sch vo False adj cs))"
proof (intro conjI allI impI)
  fix versions sargs w0 w
  assume "do_sort versions sargs w0 = Inr w \<and> stores_consistent w0"
  then show "stores_consistent w"
    using do_sort_consistent by blast
next
  fix ext fargs w w'
  assume a: "stores_consistent w \<and> do_featurize (get_embeddings ext) fargs w = Inr w'
             \<and> subsets fargs = None"
  then have "do_featurize (get_embeddings ext) fargs w = Inr w'" "subsets fargs = None"
    "stores_consistent w"
    by simp_all
  then show "\<exists>fs (stores :: region_store list) entries.
           glob_feats w (f_dir fargs) = Inr fs
         \<and> map (read_total_wt w) fs = map (\<lambda>s. Inr (total_wt s)) stores
         \<and> np_load w' (npz_path (featurize_outfile fargs)) = Inr entries
         \<and> map_of entries ''region_names'' = Some (str_array (map region_name_of fs))
         \<and> map_of entries ''region_weights'' = Some (num_array (map total_wt stores))"
    by (rule do_featurize_region_weights)
next
  show "sum_list (map (\<lambda>p. total_wt (snd p)) (snd (sort_pass sch vo False adj cs)))
          = wtotal (fst (sort_pass sch vo False adj cs))"
    by (rule sort_pass_total)
qed

theorem region_weights_match_witness:
  "\<exists>w w' entries.
     do_sort example_versions example_sort_args input_world = Inr w
   \<and> stores_consistent w
   \<and> do_featurize (get_embeddings example_externals) linear_args region_world = Inr w'
   \<and> np_load w' ''d/embeddings.npz'' = Inr entries
   \<and> map_of entries ''region_weights'' = Some (num_array [2])
   \<and> read_total_wt region_world ''d/feats_A.h5'' = Inr 2"
proof -
  note m = region_weights_match [of example_schema True True "[]"]
  from ex_run obtain w where w: "do_sort example_versions example_sort_args input_world = Inr w"
    by blast
  from m w example_consistent(2) have cw: "stores_consistent w"
    by blast
  let ?w' = "savez region_world ''d/embeddings.npz''
            [(''emb_lin'', num_matrix 4 [[1, 0, - 1, 6]]), (''region_weights'', num_array [2]),
             (''feature_names'', str_array [''SEX_1'', ''SEX_2'', ''AGEP'', ''PINCP'']),
             (''region_names'', str_array [''A'']),
             (''subset_queries'', scalar_array PyNone)]"
  have n: "subsets linear_args = None"
    by (simp add: linear_args_def)
  from m have "stores_consistent region_world
      \<and> do_featurize (get_embeddings example_externals) linear_args region_world = Inr ?w'
      \<and> subsets linear_args = None \<longrightarrow>
      (\<exists>fs (stores :: region_store list) entries.
           glob_feats region_world (f_dir linear_args) = Inr fs
         \<and> map (read_total_wt region_world) fs = map (\<lambda>s. Inr (total_wt s)) stores
         \<and> np_load ?w' (npz_path (featurize_outfile linear_args)) = Inr entries
         \<and> map_of entries ''region_names'' = Some (str_array (map region_name_of fs))
         \<and> map_of entries ''region_weights'' = Some (num_array (map total_wt stores)))"
    by blast
  with example_consistent(1) example_featurize n
  obtain fs and stores :: "region_store list" and entries where
    fs: "glob_feats region_world (f_dir linear_args) = Inr fs"
    and tot: "map (read_total_wt region_world) fs = map (\<lambda>s. Inr (total_wt s)) stores"
    and l: "np_load ?w' (npz_path (featurize_outfile linear_args)) = Inr entries"
    and rw: "map_of entries ''region_weights'' = Some (num_array (map total_wt stores))"
    by blast
  have d: "f_dir linear_args = ''d''"
    by (simp add: linear_args_def)
  from fs have "fs = [''d/feats_A.h5'']"
    unfolding d region_world_files by simp
  with tot have "map total_wt stores = [2]"
    by (intro single_total) (simp add: region_world_files)
  with rw have rw2: "map_of entries ''region_weights'' = Some (num_array [2])"
    by simp
  from l have l2: "np_load ?w' ''d/embeddings.npz'' = Inr entries"
    unfolding example_outfile .
  show ?thesis
    by (intro exI conjI)
       (rule w, rule cw, rule example_featurize, rule l2, rule rw2, rule region_world_files(4))
qed

end
